theory Spec2Isabelle
  imports Main "HOL-Library.Word"
begin

section \<open>Data model of package travis\<close>

text \<open>
  Go strings are byte strings: \<open>string\<close>. \<open>json.Number\<close> is a named string type, and
  \<open>time.Duration\<close> a 64-bit count of nanoseconds.
\<close>

type_synonym json_Number = string

definition Second :: int where
  "Second = 1000000000"

definition Minute :: int where
  "Minute = 60 * Second"

record Client =
  Timeout :: int

record Job =
  branch :: string
  client :: Client
  repoOwner :: string
  repoName :: string
  travisToken :: string
  travisTLD :: string
  pollInterval :: int

text \<open>\<open>triggerBuildResponse\<close> has the single nested field \<open>Request.ID\<close>.\<close>

record triggerBuildResponse =
  Request_ID :: json_Number

record build =
  ID :: json_Number
  PreviousState :: string
  State :: string

record buildStatusResponse =
  Builds :: "build list"

text \<open>The zero value \<open>build{}\<close>.\<close>

definition build_zero :: build where
  "build_zero = \<lparr>ID = [], PreviousState = [], State = []\<rparr>"

text \<open>The three \<open>map[string]struct{}\<close> tables, and the lookup \<open>contains\<close>.\<close>

definition travisSuccessTermSet :: "string \<rightharpoonup> unit" where
  "travisSuccessTermSet = [''passed'' \<mapsto> ()]"

definition travisFailureTermSet :: "string \<rightharpoonup> unit" where
  "travisFailureTermSet = [''failed'' \<mapsto> (), ''errored'' \<mapsto> (), ''canceled'' \<mapsto> ()]"

definition travisDoneTermSet :: "string \<rightharpoonup> unit" where
  "travisDoneTermSet =
     [''passed'' \<mapsto> (), ''failed'' \<mapsto> (), ''errored'' \<mapsto> (), ''canceled'' \<mapsto> ()]"

definition contains :: "(string \<rightharpoonup> unit) \<Rightarrow> string \<Rightarrow> bool" where
  "contains tbl item = (case tbl item of Some _ \<Rightarrow> True | None \<Rightarrow> False)"

section \<open>Errors, effects and outcomes\<close>

text \<open>
  A Go \<open>error\<close> is told apart by where it was made: by net/http or by reading the response
  body (\<open>TransportError\<close>), by encoding/json (\<open>DecodeError\<close>), or by
  \<open>errors.New\<close> in this package (\<open>ErrorString\<close>). The argument is the text that
  \<open>err.Error()\<close> gives.
\<close>

datatype error =
    TransportError string
  | DecodeError string
  | ErrorString string

fun Error_text :: "error \<Rightarrow> string" where
  "Error_text (TransportError m) = m"
| "Error_text (DecodeError m) = m"
| "Error_text (ErrorString m) = m"

record request =
  Method :: string
  URL :: string
  Header :: "(string \<times> string) list"
  Payload :: "string option"

datatype level = DebugLevel | ErrorLevel | FatalLevel

text \<open>
  What the process does to the outside: a log event (level, fields, message) or an HTTP
  request handed to a client.
\<close>

datatype effect =
    Log level "(string \<times> string) list" string
  | Http Client request

text \<open>
  How a call ends: it returns a value, the process exits with a code (\<open>os.Exit\<close>), it
  panics, or it never comes back (a blocked receive, \<open>select {}\<close>, a request without a
  time limit that is never answered).
\<close>

datatype 'a outcome = Returns 'a | Exits int | Panics string | Blocks

type_synonym 'a act = "effect list \<times> 'a outcome"

text \<open>Sequencing: what follows a call runs only when the call returns.\<close>

definition andThen :: "'a act \<Rightarrow> ('a \<Rightarrow> 'b act) \<Rightarrow> 'b act" where
  "andThen m f =
     (case m of
        (es, Returns x) \<Rightarrow> (case f x of (es', r) \<Rightarrow> (es @ es', r))
      | (es, Exits n) \<Rightarrow> (es, Exits n)
      | (es, Panics p) \<Rightarrow> (es, Panics p)
      | (es, Blocks) \<Rightarrow> (es, Blocks))"

text \<open>
  zerolog: \<open>Msg\<close> writes the event; at fatal level it then calls \<open>os.Exit(1)\<close>.
\<close>

definition logMsg :: "level \<Rightarrow> (string \<times> string) list \<Rightarrow> string \<Rightarrow> unit act" where
  "logMsg lvl kvs m =
     ([Log lvl kvs m], if lvl = FatalLevel then Exits 1 else Returns ())"

definition os_Exit :: "int \<Rightarrow> unit act" where
  "os_Exit code = ([], Exits code)"

section \<open>Reporting\<close>

definition reportSuccess :: "Job \<Rightarrow> string \<Rightarrow> unit act" where
  "reportSuccess j buildID =
     andThen (logMsg DebugLevel []
                (''JOB - TRAVIS: Reporting success for build '' @ [CHR 0x27] @ buildID @ [CHR 0x27] @ ''.''))
       (\<lambda>_. os_Exit 0)"

definition reportFailure :: "Job \<Rightarrow> string \<Rightarrow> unit act" where
  "reportFailure j buildID =
     andThen (logMsg DebugLevel []
                (''JOB - TRAVIS: Reporting failure for build '' @ [CHR 0x27] @ buildID @ [CHR 0x27] @ ''.''))
       (\<lambda>_. os_Exit 1)"

definition reportStatus :: "Job \<Rightarrow> string \<Rightarrow> string \<Rightarrow> unit act" where
  "reportStatus j buildID status =
     andThen (if contains travisSuccessTermSet status then reportSuccess j buildID
              else ([], Returns ()))
       (\<lambda>_. reportFailure j buildID)"

section \<open>The libraries and the server\<close>

text \<open>
  net/http, encoding/json and fmt are outside the package. What they compute on the
  package's inputs is a parameter of the model:
  \<^item> \<open>NewRequest_error method url\<close>: the text of the error of \<open>http.NewRequest\<close>, if it
    rejects the method or cannot parse the URL;
  \<^item> \<open>Unmarshal_trigger bytes\<close> and \<open>Unmarshal_status bytes\<close>: \<open>json.Unmarshal\<close> into a
    \<open>triggerBuildResponse\<close> and into a \<open>buildStatusResponse\<close>, \<open>Inl\<close> the text of its error;
  \<^item> \<open>Quote_high bytes\<close>: what \<open>strconv.Quote\<close> writes for a maximal run of bytes from
    0x80 up, which is fixed by UTF-8 decoding and the tables of Unicode.
\<close>

record lib =
  NewRequest_error :: "string \<Rightarrow> string \<Rightarrow> string option"
  Unmarshal_trigger :: "string \<Rightarrow> string + triggerBuildResponse"
  Unmarshal_status :: "string \<Rightarrow> string + buildStatusResponse"
  Quote_high :: "string \<Rightarrow> string"

text \<open>
  What one HTTP exchange meets: the request fails, a response arrives (whose body then
  reads to the end or fails while being read), or nothing ever comes back.
\<close>

record response =
  Body :: "string + string"

datatype server = Refuses string | Responds response | Silent

definition http_NewRequest :: "lib \<Rightarrow> string \<Rightarrow> string \<Rightarrow> string option \<Rightarrow> error + request" where
  "http_NewRequest L m u b =
     (case NewRequest_error L m u of
        Some txt \<Rightarrow> Inl (TransportError txt)
      | None \<Rightarrow> Inr \<lparr>Method = m, URL = u, Header = [], Payload = b\<rparr>)"

text \<open>
  \<open>req.Header.Set\<close>: the value of the key is replaced. (net/http also puts the key into
  its canonical case; header names do not distinguish case.)
\<close>

definition Header_Set :: "string \<Rightarrow> string \<Rightarrow> request \<Rightarrow> request" where
  "Header_Set k v req = req\<lparr>Header := filter (\<lambda>kv. fst kv \<noteq> k) (Header req) @ [(k, v)]\<rparr>"

text \<open>
  \<open>client.Do\<close>: the request goes out. A client whose \<open>Timeout\<close> is positive gives up on
  a silent server with an error; with a \<open>Timeout\<close> of zero (or below) there is no limit
  and the call never returns.
\<close>

definition client_Do :: "Client \<Rightarrow> request \<Rightarrow> server \<Rightarrow> (error + response) act" where
  "client_Do cl req sv =
     ([Http cl req],
      case sv of
        Refuses txt \<Rightarrow> Returns (Inl (TransportError txt))
      | Responds resp \<Rightarrow> Returns (Inr resp)
      | Silent \<Rightarrow>
          if 0 < Timeout cl
          then Returns (Inl (TransportError ''net/http: request canceled (Client.Timeout exceeded while awaiting headers)''))
          else Blocks)"

definition ioutil_ReadAll :: "response \<Rightarrow> error + string" where
  "ioutil_ReadAll resp =
     (case Body resp of Inl txt \<Rightarrow> Inl (TransportError txt) | Inr bytes \<Rightarrow> Inr bytes)"

definition json_Unmarshal_trigger :: "lib \<Rightarrow> string \<Rightarrow> error + triggerBuildResponse" where
  "json_Unmarshal_trigger L bytes =
     (case Unmarshal_trigger L bytes of Inl txt \<Rightarrow> Inl (DecodeError txt) | Inr res \<Rightarrow> Inr res)"

definition json_Unmarshal_status :: "lib \<Rightarrow> string \<Rightarrow> error + buildStatusResponse" where
  "json_Unmarshal_status L bytes =
     (case Unmarshal_status L bytes of Inl txt \<Rightarrow> Inl (DecodeError txt) | Inr res \<Rightarrow> Inr res)"

subsection \<open>The verb \<open>%q\<close>\<close>

text \<open>
  \<open>fmt\<close>'s \<open>%q\<close> is \<open>strconv.Quote\<close>: the string between double quotes, escaped in Go
  syntax. On the bytes below 0x80: the quote and the backslash get a backslash; the
  printable ones (0x20 to 0x7E) stand for themselves; seven control characters have a
  letter escape; every other one is written \<open>\x\<close> and two lower-case hexadecimal digits.
\<close>

definition lowerhex :: "nat \<Rightarrow> char" where
  "lowerhex n = ''0123456789abcdef'' ! (n mod 16)"

definition escapeASCII :: "char \<Rightarrow> string" where
  "escapeASCII c =
     (if c = CHR 0x22 \<or> c = CHR 0x5C then [CHR 0x5C, c]
      else if 0x20 \<le> (of_char c :: nat) \<and> (of_char c :: nat) \<le> 0x7E then [c]
      else if c = CHR 0x07 then [CHR 0x5C, CHR ''a'']
      else if c = CHR 0x08 then [CHR 0x5C, CHR ''b'']
      else if c = CHR 0x0C then [CHR 0x5C, CHR ''f'']
      else if c = CHR 0x0A then [CHR 0x5C, CHR ''n'']
      else if c = CHR 0x0D then [CHR 0x5C, CHR ''r'']
      else if c = CHR 0x09 then [CHR 0x5C, CHR ''t'']
      else if c = CHR 0x0B then [CHR 0x5C, CHR ''v'']
      else [CHR 0x5C, CHR ''x'', lowerhex (of_char c div 16), lowerhex (of_char c mod 16)])"

text \<open>
  The loop of \<open>strconv.Quote\<close> over the bytes; \<open>pending\<close> is the run of bytes from 0x80
  up that is being collected.
\<close>

fun quoteBytes :: "lib \<Rightarrow> string \<Rightarrow> string \<Rightarrow> string" where
  "quoteBytes L pending [] = (if pending = [] then [] else Quote_high L pending)"
| "quoteBytes L pending (c # cs) =
     (if 0x80 \<le> (of_char c :: nat) then quoteBytes L (pending @ [c]) cs
      else (if pending = [] then [] else Quote_high L pending) @ escapeASCII c @ quoteBytes L [] cs)"

definition strconv_Quote :: "lib \<Rightarrow> string \<Rightarrow> string" where
  "strconv_Quote L s = [CHR 0x22] @ quoteBytes L [] s @ [CHR 0x22]"

section \<open>Trigger and status\<close>

definition NewJob :: "string \<Rightarrow> string \<Rightarrow> string \<Rightarrow> string \<Rightarrow> string \<Rightarrow> int \<Rightarrow> Job" where
  "NewJob branch' owner repoName' token tld pi' =
     \<lparr>branch = branch',
      client = \<lparr>Timeout = 5 * Second\<rparr>,
      repoOwner = owner,
      repoName = repoName',
      travisToken = token,
      travisTLD = tld,
      pollInterval = pi'\<rparr>"

text \<open>The request body of \<open>triggerBuild\<close>: \<open>{"request": {"branch": %q}}\<close>.\<close>

definition triggerData :: "lib \<Rightarrow> Job \<Rightarrow> string" where
  "triggerData L j =
     [CHR ''{'', CHR 0x22] @ ''request'' @ [CHR 0x22] @ '': '' @
     [CHR ''{'', CHR 0x22] @ ''branch'' @ [CHR 0x22] @ '': '' @
     strconv_Quote L (branch j) @ ''}}''"

definition setHeaders :: "Job \<Rightarrow> request \<Rightarrow> request" where
  "setHeaders j req =
     Header_Set ''Authorization'' (''token '' @ travisToken j)
       (Header_Set ''Travis-API-Version'' ''3''
          (Header_Set ''Content-Type'' ''application/json'' req))"

text \<open>
  The two results of a Go function are a pair; \<open>None\<close> is the \<open>nil\<close> error.
\<close>

definition triggerURL :: "Job \<Rightarrow> string" where
  "triggerURL j =
     ''https://api.travis-ci.'' @ travisTLD j @ ''/repo/'' @ repoOwner j @ ''%2F'' @ repoName j @
     ''/requests''"

definition statusURL :: "Job \<Rightarrow> string \<Rightarrow> string" where
  "statusURL j requestID =
     ''https://api.travis-ci.'' @ travisTLD j @ ''/repo/'' @ repoOwner j @ ''%2F'' @ repoName j @
     ''/request/'' @ requestID"

definition triggerBuild :: "lib \<Rightarrow> Job \<Rightarrow> server \<Rightarrow> (string \<times> error option) act" where
  "triggerBuild L j sv =
     (let u = triggerURL j;
          data = triggerData L j
      in case http_NewRequest L ''POST'' u (Some data) of
           Inl err \<Rightarrow> ([], Returns ([], Some err))
         | Inr req \<Rightarrow>
             andThen (client_Do (client j) (setHeaders j req) sv) (\<lambda>r.
               case r of
                 Inl err \<Rightarrow> ([], Returns ([], Some err))
               | Inr resp \<Rightarrow>
                   (case ioutil_ReadAll resp of
                      Inl err \<Rightarrow> ([], Returns ([], Some err))
                    | Inr bytes \<Rightarrow>
                        (case json_Unmarshal_trigger L bytes of
                           Inl err \<Rightarrow> ([], Returns ([], Some err))
                         | Inr res \<Rightarrow> ([], Returns (Request_ID res, None))))))"

definition getBuildStatus :: "lib \<Rightarrow> Job \<Rightarrow> string \<Rightarrow> server \<Rightarrow> (build \<times> error option) act" where
  "getBuildStatus L j requestID sv =
     andThen (logMsg DebugLevel []
                (''JOB - TRAVIS: Fetching build status for request '' @ [CHR 0x27] @ requestID @ [CHR 0x27]))
       (\<lambda>_.
          let u = statusURL j requestID
          in case http_NewRequest L ''GET'' u None of
               Inl err \<Rightarrow>
                 ([], Returns (build_zero,
                               Some (ErrorString ''JOB - TRAVIS: Error trying to fetch build status'')))
             | Inr req \<Rightarrow>
                 andThen (client_Do (client j) (setHeaders j req) sv) (\<lambda>r.
                   case r of
                     Inl err \<Rightarrow> ([], Returns (build_zero, Some err))
                   | Inr resp \<Rightarrow>
                       (case ioutil_ReadAll resp of
                          Inl err \<Rightarrow> ([], Returns (build_zero, Some err))
                        | Inr bytes \<Rightarrow>
                            (case json_Unmarshal_status L bytes of
                               Inl err \<Rightarrow> ([], Returns (build_zero, Some err))
                             | Inr res \<Rightarrow>
                                 if 0 < length (Builds res)
                                 then ([], Returns (Builds res ! 0, None))
                                 else ([], Returns (build_zero,
                                                    Some (ErrorString ''no builds found'')))))))"

section \<open>Polling\<close>

text \<open>
  \<open>pollForResult\<close> runs two threads: the caller, waiting in \<open>select\<close>, and the goroutine
  that ranges over \<open>ticker.C\<close>. The goroutine is at one of four places: waiting for a
  tick (\<open>AtRange\<close>), in the loop body before the call of \<open>getBuildStatus\<close> (\<open>InLoop\<close>),
  at the send \<open>c <- b\<close> (\<open>AtSend\<close>), or inside an HTTP call that never returns
  (\<open>Stuck\<close>).
\<close>

datatype worker = AtRange | InLoop | AtSend build | Stuck

text \<open>
  The shared state: whether the ticker still runs, whether a tick waits in \<open>ticker.C\<close>
  (a channel that holds one tick; the runtime drops a tick that finds it full), the
  channel \<open>c\<close> of capacity one, the variable \<open>sentBuildID\<close>, the place of the goroutine,
  and what \<open>pollForResult\<close> has returned, if it has.
\<close>

record poll =
  tickerRunning :: bool
  ticker_C :: bool
  chan_c :: "build option"
  sentBuildID :: bool
  worker :: worker
  returned :: "(build \<times> error option) option"

text \<open>
  A schedule is a list of events, each the next thing that happens: the timer of the
  ticker fires; the goroutine receives a tick; the goroutine calls \<open>getBuildStatus\<close>
  against a server and handles the result; the goroutine sends on \<open>c\<close>; the \<open>select\<close>
  takes the case \<open>b := <-c\<close>; the \<open>select\<close> takes the case of \<open>time.After\<close>. An event that
  cannot happen in a state leaves it unchanged.
\<close>

datatype event =
    TimerFires
  | WorkerReceives
  | WorkerFetches server
  | WorkerSends
  | SelectReceives
  | SelectDeadline

definition buildStartedMsg :: "Job \<Rightarrow> json_Number \<Rightarrow> string" where
  "buildStartedMsg j buildID =
     ''JOB - TRAVIS: Build started: https://travis-ci.'' @ travisTLD j @ ''/'' @ repoOwner j @
     ''/'' @ repoName j @ ''/builds/'' @ buildID"

text \<open>
  The loop body from the call of \<open>getBuildStatus\<close> on. It gives the new value of
  \<open>sentBuildID\<close> and the build to send on \<open>c\<close>, if there is one.
\<close>

definition loopBody :: "lib \<Rightarrow> Job \<Rightarrow> string \<Rightarrow> server \<Rightarrow> bool \<Rightarrow> (bool \<times> build option) act" where
  "loopBody L j requestID sv sent =
     andThen (getBuildStatus L j requestID sv) (\<lambda>r.
       case r of
         (b, Some err) \<Rightarrow>
           andThen (logMsg ErrorLevel [] (''JOB - TRAVIS: '' @ Error_text err))
             (\<lambda>_. ([], Returns (sent, None)))
       | (b, None) \<Rightarrow>
           andThen (if \<not> sent then logMsg DebugLevel [] (buildStartedMsg j (ID b))
                    else ([], Returns ()))
             (\<lambda>_. ([], Returns (True,
                     if contains travisDoneTermSet (State b) then Some b else None))))"

fun step :: "lib \<Rightarrow> Job \<Rightarrow> string \<Rightarrow> event \<Rightarrow> poll \<Rightarrow> effect list \<times> poll" where
  "step L j requestID TimerFires s =
     ([], if tickerRunning s \<and> \<not> ticker_C s then s\<lparr>ticker_C := True\<rparr> else s)"
| "step L j requestID WorkerReceives s =
     (if worker s = AtRange \<and> ticker_C s
      then (fst (logMsg DebugLevel [] ''JOB - TRAVIS: Polling for build result...''),
            s\<lparr>ticker_C := False, worker := InLoop\<rparr>)
      else ([], s))"
| "step L j requestID (WorkerFetches sv) s =
     (if worker s = InLoop
      then (case loopBody L j requestID sv (sentBuildID s) of
              (es, Returns (sent, None)) \<Rightarrow> (es, s\<lparr>sentBuildID := sent, worker := AtRange\<rparr>)
            | (es, Returns (sent, Some b)) \<Rightarrow> (es, s\<lparr>sentBuildID := sent, worker := AtSend b\<rparr>)
            | (es, Exits n) \<Rightarrow> (es, s\<lparr>worker := Stuck\<rparr>)
            | (es, Panics p) \<Rightarrow> (es, s\<lparr>worker := Stuck\<rparr>)
            | (es, Blocks) \<Rightarrow> (es, s\<lparr>worker := Stuck\<rparr>))
      else ([], s))"
| "step L j requestID WorkerSends s =
     (case worker s of
        AtSend b \<Rightarrow> (if chan_c s = None then ([], s\<lparr>chan_c := Some b, worker := AtRange\<rparr>)
                     else ([], s))
      | _ \<Rightarrow> ([], s))"
| "step L j requestID SelectReceives s =
     (if returned s = None
      then (case chan_c s of
              Some b \<Rightarrow> ([], s\<lparr>tickerRunning := False, chan_c := None, returned := Some (b, None)\<rparr>)
            | None \<Rightarrow> ([], s))
      else ([], s))"
| "step L j requestID SelectDeadline s =
     (if returned s = None
      then ([], s\<lparr>tickerRunning := False,
                  returned := Some (build_zero,
                                    Some (ErrorString ''timed out waiting for build result''))\<rparr>)
      else ([], s))"

text \<open>The state when the goroutine has been started and the caller enters \<open>select\<close>.\<close>

definition poll_start :: poll where
  "poll_start =
     \<lparr>tickerRunning = True, ticker_C = False, chan_c = None, sentBuildID = False,
      worker = AtRange, returned = None\<rparr>"

text \<open>
  The schedule up to the event at which \<open>pollForResult\<close> returns; what is left of the
  schedule is handed back with the state.
\<close>

fun untilReturn :: "lib \<Rightarrow> Job \<Rightarrow> string \<Rightarrow> event list \<Rightarrow> poll \<Rightarrow> effect list \<times> poll \<times> event list" where
  "untilReturn L j requestID [] s = ([], s, [])"
| "untilReturn L j requestID (e # es) s =
     (if returned s \<noteq> None then ([], s, e # es)
      else (case step L j requestID e s of
              (out, s') \<Rightarrow>
                (case untilReturn L j requestID es s' of
                   (out', s'', rest) \<Rightarrow> (out @ out', s'', rest))))"

text \<open>
  A whole schedule, whether \<open>pollForResult\<close> has returned or not: this is also how the
  goroutine that stays behind goes on after the return.
\<close>

fun runEvents :: "lib \<Rightarrow> Job \<Rightarrow> string \<Rightarrow> event list \<Rightarrow> poll \<Rightarrow> effect list \<times> poll" where
  "runEvents L j requestID [] s = ([], s)"
| "runEvents L j requestID (e # es) s =
     (case step L j requestID e s of
        (out, s') \<Rightarrow>
          (case runEvents L j requestID es s' of (out', s'') \<Rightarrow> (out @ out', s'')))"

text \<open>
  \<open>time.Duration(j.pollInterval) * time.Second\<close> is a product of 64-bit integers;
  \<open>time.NewTicker\<close> panics unless its argument is positive. The deadline of the \<open>select\<close>
  is \<open>40 * time.Minute\<close>.
\<close>

definition tickerInterval :: "Job \<Rightarrow> int" where
  "tickerInterval j = sint ((word_of_int (pollInterval j) :: 64 word) * word_of_int Second)"

definition pollDeadline :: int where
  "pollDeadline = 40 * Minute"

definition pollForResult ::
    "lib \<Rightarrow> Job \<Rightarrow> string \<Rightarrow> event list \<Rightarrow> ((build \<times> error option) \<times> poll \<times> event list) act" where
  "pollForResult L j requestID evs =
     (if tickerInterval j \<le> 0 then ([], Panics ''non-positive interval for NewTicker'')
      else (case untilReturn L j requestID evs poll_start of
              (out, s, rest) \<Rightarrow>
                (out, case returned s of None \<Rightarrow> Blocks | Some r \<Rightarrow> Returns (r, s, rest))))"

section \<open>Execute\<close>

text \<open>
  \<open>var err error\<close> declares the \<open>err\<close> that the last \<open>if\<close> reads. Each of the two
  \<open>if ...; err == nil\<close> statements declares, with \<open>:=\<close>, an \<open>err\<close> of its own
  (\<open>err1\<close>, \<open>err2\<close>), whose scope ends with that statement. The value handed back is the
  goroutine left behind, if one was started.
\<close>

definition Execute ::
    "lib \<Rightarrow> Job \<Rightarrow> server \<Rightarrow> event list \<Rightarrow> (string \<times> poll \<times> event list) option act" where
  "Execute L j sv evs =
     (let err = (None :: error option)
      in andThen
           (andThen (triggerBuild L j sv) (\<lambda>t.
              case t of
                (requestID, None) \<Rightarrow>
                  andThen (pollForResult L j requestID evs) (\<lambda>(r, s, rest).
                    case r of
                      (b, None) \<Rightarrow>
                        andThen (reportStatus j (ID b) (State b))
                          (\<lambda>_. ([], Returns (Some (requestID, s, rest))))
                    | (b, Some err2) \<Rightarrow> ([], Returns (Some (requestID, s, rest))))
              | (requestID, Some err1) \<Rightarrow> ([], Returns None)))
           (\<lambda>left.
              andThen (case err of
                         Some e \<Rightarrow> logMsg FatalLevel [] (''JOB - TRAVIS: '' @ Error_text e)
                       | None \<Rightarrow> ([], Returns ()))
                (\<lambda>_. ([], Returns left))))"

section \<open>The command\<close>

text \<open>
  Modelled from the spec: the two-argument \<open>Env\<close> of internal/lib that \<open>main\<close> calls is
  not among the sources (lib.go holds the one-argument \<open>Env\<close> of an earlier \<open>main\<close>). By
  the spec a variable is required unless it has a default, a required variable that is
  not set is fatal at startup, and \<open>POLL_INTERVAL\<close> is optional with default 30. The
  fatal message is the one of lib.go.
\<close>

definition Env :: "(string \<rightharpoonup> string) \<Rightarrow> string \<Rightarrow> string \<Rightarrow> string act" where
  "Env env name dflt =
     (case env name of
        Some v \<Rightarrow> ([], Returns v)
      | None \<Rightarrow>
          if dflt \<noteq> [] then ([], Returns dflt)
          else andThen (logMsg FatalLevel [(''Name'', name)] ''Environment variable is not set.'')
                 (\<lambda>_. ([], Returns [])))"

text \<open>
  \<open>strconv.Atoi\<close> where \<open>int\<close> has 64 bits: an optional sign and then one or more decimal
  digits, or the result is 0 with a syntax error; a value outside the 64-bit range gives
  the nearest bound with a range error.
\<close>

datatype numError = ErrSyntax | ErrRange

definition isDigit :: "char \<Rightarrow> bool" where
  "isDigit ch = (0x30 \<le> (of_char ch :: nat) \<and> (of_char ch :: nat) \<le> 0x39)"

definition digitsValue :: "string \<Rightarrow> int" where
  "digitsValue ds = foldl (\<lambda>n ch. n * 10 + (of_char ch - 0x30)) 0 ds"

definition strconv_Atoi :: "string \<Rightarrow> int \<times> numError option" where
  "strconv_Atoi s =
     (let neg = (s \<noteq> [] \<and> hd s = CHR ''-'');
          ds = (if s \<noteq> [] \<and> (hd s = CHR ''+'' \<or> hd s = CHR ''-'') then tl s else s)
      in if ds = [] \<or> \<not> list_all isDigit ds then (0, Some ErrSyntax)
         else (let v = (if neg then - digitsValue ds else digitsValue ds)
               in if 2 ^ 63 - 1 < v then (2 ^ 63 - 1, Some ErrRange)
                  else if v < - (2 ^ 63) then (- (2 ^ 63), Some ErrRange)
                  else (v, None)))"

text \<open>
  \<open>main\<close> of the command, given the environment, the server that the trigger request
  meets and the schedule of the poll. After \<open>Execute\<close> has returned, \<open>select {}\<close> blocks
  while a goroutine left behind goes on; the outcome is \<open>Blocks\<close>. (Once no goroutine can
  run any more the Go runtime aborts a process on its deadlock check; the model does not
  follow the runtime that far. The assignments to \<open>zerolog.TimeFieldFormat\<close> only set the
  format of the log's time field.)
\<close>

definition main :: "lib \<Rightarrow> (string \<rightharpoonup> string) \<Rightarrow> server \<Rightarrow> event list \<Rightarrow> unit act" where
  "main L env sv evs =
     andThen (Env env ''BRANCH'' []) (\<lambda>branch'.
     andThen (Env env ''REPO_OWNER'' []) (\<lambda>repoOwner'.
     andThen (Env env ''REPO_NAME'' []) (\<lambda>repoName'.
     andThen (Env env ''TRAVIS_TOKEN'' []) (\<lambda>travisToken'.
     andThen (Env env ''TRAVIS_TLD'' []) (\<lambda>travisTLD'.
     andThen (Env env ''POLL_INTERVAL'' ''30'') (\<lambda>interval.
       case strconv_Atoi interval of
         (pollInterval', err) \<Rightarrow>
           andThen (case err of
                      Some _ \<Rightarrow> logMsg FatalLevel [] ''Failed to parse POLL_INTERVAL''
                    | None \<Rightarrow> ([], Returns ())) (\<lambda>_.
           andThen (logMsg DebugLevel [] ''Starting Travis job...'') (\<lambda>_.
           (let j = NewJob branch' repoOwner' repoName' travisToken' travisTLD' pollInterval'
            in andThen (Execute L j sv evs) (\<lambda>left.
                 case left of
                   None \<Rightarrow> ([], Blocks)
                 | Some (requestID, s, rest) \<Rightarrow>
                     (fst (runEvents L j requestID rest s), Blocks)))))))))))"

section \<open>Concrete inputs\<close>

text \<open>
  One behaviour of the libraries and one configuration, on which the model is run:
  every URL is accepted; the trigger response \<open>{"request": {"id": 42}}\<close> and three
  status responses (no build, build 99 started, build 99 passed) decode as
  \<open>json.Unmarshal\<close> decodes them, and every other body is taken to be malformed.
\<close>

definition body_request_42 :: string where
  "body_request_42 =
     [CHR ''{'', CHR 0x22] @ ''request'' @ [CHR 0x22] @ '': '' @ [CHR ''{'', CHR 0x22] @ ''id'' @
     [CHR 0x22] @ '': 42}}''"

definition body_builds :: "string \<Rightarrow> string" where
  "body_builds elems = [CHR ''{'', CHR 0x22] @ ''builds'' @ [CHR 0x22] @ '': ['' @ elems @ '']}''"

definition body_build_99 :: "string \<Rightarrow> string" where
  "body_build_99 st =
     body_builds
       ([CHR ''{'', CHR 0x22] @ ''id'' @ [CHR 0x22] @ '': 99, '' @
        [CHR 0x22] @ ''state'' @ [CHR 0x22] @ '': '' @ [CHR 0x22] @ st @ [CHR 0x22] @ ''}'')"

definition build_99 :: "string \<Rightarrow> build" where
  "build_99 st = \<lparr>ID = ''99'', PreviousState = [], State = st\<rparr>"

definition lib_sample :: lib where
  "lib_sample =
     \<lparr>NewRequest_error = (\<lambda>m u. None),
      Unmarshal_trigger =
        (\<lambda>bytes. if bytes = body_request_42 then Inr \<lparr>Request_ID = ''42''\<rparr>
                  else Inl ''invalid character'' ),
      Unmarshal_status =
        (\<lambda>bytes. if bytes = body_builds [] then Inr \<lparr>Builds = []\<rparr>
                  else if bytes = body_build_99 ''started''
                  then Inr \<lparr>Builds = [build_99 ''started'']\<rparr>
                  else if bytes = body_build_99 ''passed''
                  then Inr \<lparr>Builds = [build_99 ''passed'']\<rparr>
                  else Inl ''invalid character''),
      Quote_high = (\<lambda>bytes. bytes)\<rparr>"

definition job_sample :: Job where
  "job_sample = NewJob ''main'' ''ragurney'' ''travis-job'' ''secret'' ''org'' 30"

definition env_sample :: "string \<rightharpoonup> string" where
  "env_sample =
     [''BRANCH'' \<mapsto> ''main'', ''REPO_OWNER'' \<mapsto> ''ragurney'', ''REPO_NAME'' \<mapsto> ''travis-job'',
      ''TRAVIS_TOKEN'' \<mapsto> ''secret'', ''TRAVIS_TLD'' \<mapsto> ''org'']"

definition answers :: "string \<Rightarrow> server" where
  "answers bytes = Responds \<lparr>Body = Inr bytes\<rparr>"

section \<open>Observations\<close>

text \<open>The log lines (level and message) and the HTTP calls among the effects of a run.\<close>

fun logLines :: "effect list \<Rightarrow> (level \<times> string) list" where
  "logLines [] = []"
| "logLines (Log lvl kvs m # es) = (lvl, m) # logLines es"
| "logLines (Http cl req # es) = logLines es"

fun httpCalls :: "effect list \<Rightarrow> (Client \<times> request) list" where
  "httpCalls [] = []"
| "httpCalls (Log lvl kvs m # es) = httpCalls es"
| "httpCalls (Http cl req # es) = (cl, req) # httpCalls es"

definition onlyClient :: "Client \<Rightarrow> effect list \<Rightarrow> bool" where
  "onlyClient cl es = list_all (\<lambda>call. fst call = cl) (httpCalls es)"




subsection \<open>Reading the request body as JSON\<close>

text \<open>
  A JSON string (RFC 8259) after its opening quote: a byte from 0x20 up other than the
  quote and the backslash stands for itself; a backslash is followed by one of
  \<open>" \ / b f n r t\<close> or by \<open>u\<close> and four hexadecimal digits; nothing else is a string.
  The result is the bytes of the value (UTF-8) and the input after the closing quote.
  (An escaped surrogate is not read here.)
\<close>

definition json_escape :: "char \<Rightarrow> char option" where
  "json_escape e =
     (if e = CHR 0x22 then Some (CHR 0x22)
      else if e = CHR 0x5C then Some (CHR 0x5C)
      else if e = CHR ''/'' then Some (CHR ''/'')
      else if e = CHR ''b'' then Some (CHR 0x08)
      else if e = CHR ''f'' then Some (CHR 0x0C)
      else if e = CHR ''n'' then Some (CHR 0x0A)
      else if e = CHR ''r'' then Some (CHR 0x0D)
      else if e = CHR ''t'' then Some (CHR 0x09)
      else None)"

definition hexValue :: "char \<Rightarrow> nat option" where
  "hexValue h =
     (let n = (of_char h :: nat)
      in if 0x30 \<le> n \<and> n \<le> 0x39 then Some (n - 0x30)
         else if 0x41 \<le> n \<and> n \<le> 0x46 then Some (n - 0x37)
         else if 0x61 \<le> n \<and> n \<le> 0x66 then Some (n - 0x57)
         else None)"

definition hex4 :: "char \<Rightarrow> char \<Rightarrow> char \<Rightarrow> char \<Rightarrow> nat option" where
  "hex4 h1 h2 h3 h4 =
     (case (hexValue h1, hexValue h2, hexValue h3, hexValue h4) of
        (Some a, Some b, Some c, Some d) \<Rightarrow> Some (((a * 16 + b) * 16 + c) * 16 + d)
      | _ \<Rightarrow> None)"

definition utf8 :: "nat \<Rightarrow> string" where
  "utf8 n =
     (if n < 0x80 then [char_of n]
      else if n < 0x800 then [char_of (0xC0 + n div 64), char_of (0x80 + n mod 64)]
      else [char_of (0xE0 + n div 4096), char_of (0x80 + (n div 64) mod 64),
            char_of (0x80 + n mod 64)])"

fun json_string_tail :: "string \<Rightarrow> (string \<times> string) option" where
  "json_string_tail [] = None"
| "json_string_tail (c # cs) =
     (if c = CHR 0x22 then Some ([], cs)
      else if c = CHR 0x5C
      then (case cs of
              [] \<Rightarrow> None
            | e # cs' \<Rightarrow>
                if e = CHR ''u''
                then (case cs' of
                        h1 # h2 # h3 # h4 # cs'' \<Rightarrow>
                          (case hex4 h1 h2 h3 h4 of
                             None \<Rightarrow> None
                           | Some n \<Rightarrow>
                               if 0xD800 \<le> n \<and> n < 0xE000 then None
                               else map_option (\<lambda>vr. (utf8 n @ fst vr, snd vr))
                                      (json_string_tail cs''))
                      | _ \<Rightarrow> None)
                else (case json_escape e of
                        None \<Rightarrow> None
                      | Some d \<Rightarrow>
                          map_option (\<lambda>vr. (d # fst vr, snd vr)) (json_string_tail cs')))
      else if (of_char c :: nat) < 0x20 then None
      else map_option (\<lambda>vr. (c # fst vr, snd vr)) (json_string_tail cs))"

text \<open>
  The branch named by a request body: the body has to be
  \<open>{"request": {"branch": \<close> and a JSON string and \<open>}}\<close>.
\<close>

definition bodyPrefix :: string where
  "bodyPrefix =
     [CHR ''{'', CHR 0x22] @ ''request'' @ [CHR 0x22] @ '': '' @
     [CHR ''{'', CHR 0x22] @ ''branch'' @ [CHR 0x22] @ '': ''"

definition json_branch :: "string \<Rightarrow> string option" where
  "json_branch bytes =
     (if take (length bodyPrefix) bytes = bodyPrefix
      then (case drop (length bodyPrefix) bytes of
              [] \<Rightarrow> None
            | q # rest \<Rightarrow>
                if q = CHR 0x22
                then (case json_string_tail rest of
                        None \<Rightarrow> None
                      | Some (v, r) \<Rightarrow> if r = ''}}'' then Some v else None)
                else None)
      else None)"

text \<open>
  A build is done when its state is in \<open>travisDoneTermSet\<close>; the handoff is done when
  every build in the channel \<open>c\<close>, at the send, or returned without error is done.
\<close>

definition doneBuild :: "build \<Rightarrow> bool" where
  "doneBuild b = contains travisDoneTermSet (State b)"

definition handoffDone :: "poll \<Rightarrow> bool" where
  "handoffDone s =
     ((case chan_c s of Some b \<Rightarrow> doneBuild b | None \<Rightarrow> True)
      \<and> (case worker s of AtSend b \<Rightarrow> doneBuild b | _ \<Rightarrow> True)
      \<and> (case returned s of Some (b, None) \<Rightarrow> doneBuild b | _ \<Rightarrow> True))"

definition printable :: "char \<Rightarrow> bool" where
  "printable c = (0x20 \<le> (of_char c :: nat) \<and> (of_char c :: nat) \<le> 0x7E)"

section \<open>encoding/json on the response of the trigger\<close>

text \<open>
  \<open>json.Unmarshal(body, &res)\<close> for \<open>res\<close> a \<open>triggerBuildResponse\<close>, as encoding/json
  works: the body is first checked to be one JSON value (RFC 8259) with nothing but
  white space around it, objects and arrays nested at most 10000 deep; then the value is
  stored into the struct. A JSON text is read into a tree.
\<close>

datatype json =
    JNull
  | JBool bool
  | JNumber string
  | JString string
  | JArray "json list"
  | JObject "(string \<times> json) list"

definition isSpace :: "char \<Rightarrow> bool" where
  "isSpace c = (c = CHR 0x20 \<or> c = CHR 0x09 \<or> c = CHR 0x0D \<or> c = CHR 0x0A)"

definition skipSpace :: "string \<Rightarrow> string" where
  "skipSpace s = dropWhile isSpace s"

subsection \<open>Numbers\<close>

text \<open>
  A number is an optional minus, then \<open>0\<close> or a digit from 1 to 9 with more digits, then
  an optional fraction (a point and one or more digits), then an optional exponent
  (\<open>e\<close> or \<open>E\<close>, an optional sign, one or more digits). Each scan gives the text it has
  read and the rest of the input.
\<close>

definition scanDigits :: "string \<Rightarrow> (string \<times> string) option" where
  "scanDigits s =
     (if takeWhile isDigit s = [] then None
      else Some (takeWhile isDigit s, dropWhile isDigit s))"

definition scanInt :: "string \<Rightarrow> (string \<times> string) option" where
  "scanInt s =
     (case s of
        [] \<Rightarrow> None
      | c # cs \<Rightarrow>
          if c = CHR ''0'' then Some ([c], cs)
          else if isDigit c then Some (c # takeWhile isDigit cs, dropWhile isDigit cs)
          else None)"

definition scanFrac :: "string \<Rightarrow> (string \<times> string) option" where
  "scanFrac s =
     (case s of
        [] \<Rightarrow> Some ([], s)
      | c # cs \<Rightarrow>
          if c = CHR ''.''
          then (case scanDigits cs of None \<Rightarrow> None | Some (ds, r) \<Rightarrow> Some (c # ds, r))
          else Some ([], s))"

definition scanSign :: "string \<Rightarrow> string \<times> string" where
  "scanSign s =
     (case s of
        [] \<Rightarrow> ([], s)
      | c # cs \<Rightarrow> if c = CHR ''+'' \<or> c = CHR ''-'' then ([c], cs) else ([], s))"

definition scanExp :: "string \<Rightarrow> (string \<times> string) option" where
  "scanExp s =
     (case s of
        [] \<Rightarrow> Some ([], s)
      | c # cs \<Rightarrow>
          if c = CHR ''e'' \<or> c = CHR ''E''
          then (case scanDigits (snd (scanSign cs)) of
                  None \<Rightarrow> None
                | Some (ds, r) \<Rightarrow> Some (c # fst (scanSign cs) @ ds, r))
          else Some ([], s))"

definition scanMinus :: "string \<Rightarrow> string \<times> string" where
  "scanMinus s =
     (case s of
        [] \<Rightarrow> ([], s)
      | c # cs \<Rightarrow> if c = CHR ''-'' then ([c], cs) else ([], s))"

definition scanNumber :: "string \<Rightarrow> (string \<times> string) option" where
  "scanNumber s =
     (case scanInt (snd (scanMinus s)) of
        None \<Rightarrow> None
      | Some (ip, s2) \<Rightarrow>
          (case scanFrac s2 of
             None \<Rightarrow> None
           | Some (fp, s3) \<Rightarrow>
               (case scanExp s3 of
                  None \<Rightarrow> None
                | Some (ep, s4) \<Rightarrow> Some (fst (scanMinus s) @ ip @ fp @ ep, s4))))"

text \<open>\<open>isValidNumber\<close> of encoding/json: the whole string is one number.\<close>

definition isValidNumber :: "string \<Rightarrow> bool" where
  "isValidNumber s = (scanNumber s = Some (s, []))"

subsection \<open>Strings\<close>

text \<open>
  The UTF-8 bytes of a code point, and a string after its opening quote, read and
  unquoted at once. A \<open>\u\<close> escape gives the UTF-8 bytes of its code point; an escaped
  high surrogate followed by an escaped low surrogate gives the code point of the pair,
  any other escaped surrogate gives U+FFFD. Bytes from 0x80 up that stand in the string
  unescaped are kept as they are (encoding/json puts U+FFFD in the place of ill-formed
  UTF-8, which like the bytes it replaces is not ASCII).
\<close>

definition appendRune :: "nat \<Rightarrow> string" where
  "appendRune n =
     (if n < 0x80 then [char_of n]
      else if n < 0x800 then [char_of (0xC0 + n div 64), char_of (0x80 + n mod 64)]
      else if n < 0x10000
      then [char_of (0xE0 + n div 4096), char_of (0x80 + (n div 64) mod 64),
            char_of (0x80 + n mod 64)]
      else [char_of (0xF0 + n div 262144), char_of (0x80 + (n div 4096) mod 64),
            char_of (0x80 + (n div 64) mod 64), char_of (0x80 + n mod 64)])"

definition lowSurrogate :: "string \<Rightarrow> nat option" where
  "lowSurrogate s =
     (case s of
        b # u # l1 # l2 # l3 # l4 # r \<Rightarrow>
          if b = CHR 0x5C \<and> u = CHR ''u''
          then (case hex4 l1 l2 l3 l4 of
                  None \<Rightarrow> None
                | Some m \<Rightarrow> if 0xDC00 \<le> m \<and> m < 0xE000 then Some m else None)
          else None
      | _ \<Rightarrow> None)"

fun scanString :: "string \<Rightarrow> (string \<times> string) option" where
  "scanString [] = None"
| "scanString (c # cs) =
     (if c = CHR 0x22 then Some ([], cs)
      else if c = CHR 0x5C
      then (case cs of
              [] \<Rightarrow> None
            | e # cs' \<Rightarrow>
                if e = CHR ''u''
                then (case cs' of
                        h1 # h2 # h3 # h4 # cs'' \<Rightarrow>
                          (case hex4 h1 h2 h3 h4 of
                             None \<Rightarrow> None
                           | Some n \<Rightarrow>
                               if 0xD800 \<le> n \<and> n < 0xDC00
                               then (case lowSurrogate cs'' of
                                       Some m \<Rightarrow>
                                         (case scanString (drop 6 cs'') of
                                            None \<Rightarrow> None
                                          | Some (t, r) \<Rightarrow>
                                              Some (appendRune (0x10000 + (n - 0xD800) * 0x400 + (m - 0xDC00)) @ t, r))
                                     | None \<Rightarrow>
                                         (case scanString cs'' of
                                            None \<Rightarrow> None
                                          | Some (t, r) \<Rightarrow> Some (appendRune 0xFFFD @ t, r)))
                               else if 0xDC00 \<le> n \<and> n < 0xE000
                               then (case scanString cs'' of
                                       None \<Rightarrow> None
                                     | Some (t, r) \<Rightarrow> Some (appendRune 0xFFFD @ t, r))
                               else (case scanString cs'' of
                                       None \<Rightarrow> None
                                     | Some (t, r) \<Rightarrow> Some (appendRune n @ t, r)))
                      | _ \<Rightarrow> None)
                else (case json_escape e of
                        None \<Rightarrow> None
                      | Some d \<Rightarrow>
                          (case scanString cs' of
                             None \<Rightarrow> None
                           | Some (t, r) \<Rightarrow> Some (d # t, r))))
      else if (of_char c :: nat) < 0x20 then None
      else (case scanString cs of None \<Rightarrow> None | Some (t, r) \<Rightarrow> Some (c # t, r)))"

subsection \<open>Values\<close>

text \<open>
  A value after optional white space, with \<open>d\<close> the number of levels it may still open;
  the elements of an array after its \<open>[\<close>, and the members of an object from the quote
  of a key on, each up to the closing bracket. The tests on the lengths are there for
  the termination proof only: what has been read is never empty.
\<close>

function parseValue :: "nat \<Rightarrow> string \<Rightarrow> (json \<times> string) option"
  and parseElements :: "nat \<Rightarrow> string \<Rightarrow> (json list \<times> string) option"
  and parseMembers :: "nat \<Rightarrow> string \<Rightarrow> ((string \<times> json) list \<times> string) option"
where
  "parseValue d s =
     (case skipSpace s of
        [] \<Rightarrow> None
      | c # cs \<Rightarrow>
          if c = CHR ''{''
          then (if d = 0 then None
                else (case skipSpace cs of
                        [] \<Rightarrow> None
                      | c' # cs' \<Rightarrow>
                          if c' = CHR ''}'' then Some (JObject [], cs')
                          else (case parseMembers (d - 1) (c' # cs') of
                                  None \<Rightarrow> None
                                | Some (ms, r) \<Rightarrow> Some (JObject ms, r))))
          else if c = CHR ''[''
          then (if d = 0 then None
                else (case skipSpace cs of
                        [] \<Rightarrow> None
                      | c' # cs' \<Rightarrow>
                          if c' = CHR '']'' then Some (JArray [], cs')
                          else (case parseElements (d - 1) (c' # cs') of
                                  None \<Rightarrow> None
                                | Some (vs, r) \<Rightarrow> Some (JArray vs, r))))
          else if c = CHR 0x22
          then (case scanString cs of None \<Rightarrow> None | Some (t, r) \<Rightarrow> Some (JString t, r))
          else if c = CHR ''-'' \<or> isDigit c
          then (case scanNumber (c # cs) of None \<Rightarrow> None | Some (t, r) \<Rightarrow> Some (JNumber t, r))
          else if take 4 (c # cs) = ''true'' then Some (JBool True, drop 4 (c # cs))
          else if take 5 (c # cs) = ''false'' then Some (JBool False, drop 5 (c # cs))
          else if take 4 (c # cs) = ''null'' then Some (JNull, drop 4 (c # cs))
          else None)"
| "parseElements d s =
     (case parseValue d s of
        None \<Rightarrow> None
      | Some (v, r) \<Rightarrow>
          if length r < length s
          then (case skipSpace r of
                  [] \<Rightarrow> None
                | c # cs \<Rightarrow>
                    if c = CHR '',''
                    then (case parseElements d cs of
                            None \<Rightarrow> None
                          | Some (vs, r') \<Rightarrow> Some (v # vs, r'))
                    else if c = CHR '']'' then Some ([v], cs)
                    else None)
          else None)"
| "parseMembers d s =
     (case skipSpace s of
        [] \<Rightarrow> None
      | q # s1 \<Rightarrow>
          if q = CHR 0x22
          then (case scanString s1 of
                  None \<Rightarrow> None
                | Some (k, s2) \<Rightarrow>
                    if length s2 < length s1
                    then (case skipSpace s2 of
                            [] \<Rightarrow> None
                          | colon # s3 \<Rightarrow>
                              if colon = CHR '':''
                              then (case parseValue d s3 of
                                      None \<Rightarrow> None
                                    | Some (v, r) \<Rightarrow>
                                        if length r < length s3
                                        then (case skipSpace r of
                                                [] \<Rightarrow> None
                                              | c # cs \<Rightarrow>
                                                  if c = CHR '',''
                                                  then (case parseMembers d cs of
                                                          None \<Rightarrow> None
                                                        | Some (ms, r') \<Rightarrow> Some ((k, v) # ms, r'))
                                                  else if c = CHR ''}'' then Some ([(k, v)], cs)
                                                  else None)
                                        else None)
                              else None)
                    else None)
          else None)"
  by pat_completeness auto

termination
proof -
  have shorter: "length xs < length s" if "dropWhile isSpace s = x # xs" for s x xs
    using length_dropWhile_le [of isSpace s] that by simp
  show ?thesis
    by (relation "measure (\<lambda>x. case x of Inl (d, s) \<Rightarrow> 2 * length s
                                     | Inr (Inl (d, s)) \<Rightarrow> 2 * length s + 1
                                     | Inr (Inr (d, s)) \<Rightarrow> 2 * length s + 1)")
       (auto simp: skipSpace_def dest!: shorter)
qed

definition parseJSON :: "string \<Rightarrow> json option" where
  "parseJSON s =
     (case parseValue 10000 s of
        None \<Rightarrow> None
      | Some (v, r) \<Rightarrow> if skipSpace r = [] then Some v else None)"

subsection \<open>Storing a value into the struct\<close>

text \<open>
  A key names a field when the two are equal after folding: the ASCII letters to upper
  case, and U+017F and U+212A, the two code points beyond ASCII that fold to an ASCII
  letter, to \<open>S\<close> and \<open>K\<close>. (Other bytes from 0x80 up are left as they are: no fold of
  theirs is ASCII.)
\<close>

definition toUpper :: "char \<Rightarrow> char" where
  "toUpper c =
     (if 0x61 \<le> (of_char c :: nat) \<and> (of_char c :: nat) \<le> 0x7A
      then char_of ((of_char c :: nat) - 0x20) else c)"

fun foldName :: "string \<Rightarrow> string" where
  "foldName (c1 # c2 # c3 # cs) =
     (if c1 = CHR 0xE2 \<and> c2 = CHR 0x84 \<and> c3 = CHR 0xAA then CHR ''K'' # foldName cs
      else if c1 = CHR 0xC5 \<and> c2 = CHR 0xBF then CHR ''S'' # foldName (c3 # cs)
      else toUpper c1 # foldName (c2 # c3 # cs))"
| "foldName [c1, c2] =
     (if c1 = CHR 0xC5 \<and> c2 = CHR 0xBF then [CHR ''S''] else [toUpper c1, toUpper c2])"
| "foldName [c1] = [toUpper c1]"
| "foldName [] = []"

text \<open>
  The decoder holds the struct it fills and the first error it has saved. A value of a
  JSON type that its target cannot take is a saved error, after which decoding goes on;
  a string that is no number, for a \<open>json.Number\<close>, ends decoding with an error at once;
  \<open>null\<close> changes nothing. (The texts of the errors are shortened.)
\<close>

type_synonym decodeState = "triggerBuildResponse \<times> string option"

definition saveError :: "string \<Rightarrow> decodeState \<Rightarrow> decodeState" where
  "saveError kind st =
     (case snd st of
        None \<Rightarrow> (fst st, Some (''json: cannot unmarshal '' @ kind @ '' into Go value''))
      | Some txt \<Rightarrow> st)"

text \<open>Into the field \<open>ID json.Number\<close>, tagged \<open>id\<close>.\<close>

fun storeID :: "json \<Rightarrow> decodeState \<Rightarrow> string + decodeState" where
  "storeID JNull st = Inr st"
| "storeID (JNumber t) st = Inr ((fst st)\<lparr>Request_ID := t\<rparr>, snd st)"
| "storeID (JString t) st =
     (if isValidNumber t then Inr ((fst st)\<lparr>Request_ID := t\<rparr>, snd st)
      else Inl ''json: invalid number literal'')"
| "storeID (JBool b) st = Inr (saveError ''bool'' st)"
| "storeID (JArray vs) st = Inr (saveError ''array'' st)"
| "storeID (JObject ms) st = Inr (saveError ''object'' st)"

text \<open>Into the field \<open>Request\<close>, a struct, tagged \<open>request\<close>: the members in order.\<close>

fun storeRequestMembers :: "(string \<times> json) list \<Rightarrow> decodeState \<Rightarrow> string + decodeState" where
  "storeRequestMembers [] st = Inr st"
| "storeRequestMembers (m # ms) st =
     (if foldName (fst m) = ''ID''
      then (case storeID (snd m) st of
              Inl txt \<Rightarrow> Inl txt
            | Inr st' \<Rightarrow> storeRequestMembers ms st')
      else storeRequestMembers ms st)"

fun storeRequest :: "json \<Rightarrow> decodeState \<Rightarrow> string + decodeState" where
  "storeRequest JNull st = Inr st"
| "storeRequest (JObject ms) st = storeRequestMembers ms st"
| "storeRequest (JBool b) st = Inr (saveError ''bool'' st)"
| "storeRequest (JNumber t) st = Inr (saveError ''number'' st)"
| "storeRequest (JString t) st = Inr (saveError ''string'' st)"
| "storeRequest (JArray vs) st = Inr (saveError ''array'' st)"

text \<open>Into the \<open>triggerBuildResponse\<close> itself.\<close>

fun storeMembers :: "(string \<times> json) list \<Rightarrow> decodeState \<Rightarrow> string + decodeState" where
  "storeMembers [] st = Inr st"
| "storeMembers (m # ms) st =
     (if foldName (fst m) = ''REQUEST''
      then (case storeRequest (snd m) st of
              Inl txt \<Rightarrow> Inl txt
            | Inr st' \<Rightarrow> storeMembers ms st')
      else storeMembers ms st)"

fun storeResponse :: "json \<Rightarrow> decodeState \<Rightarrow> string + decodeState" where
  "storeResponse JNull st = Inr st"
| "storeResponse (JObject ms) st = storeMembers ms st"
| "storeResponse (JBool b) st = Inr (saveError ''bool'' st)"
| "storeResponse (JNumber t) st = Inr (saveError ''number'' st)"
| "storeResponse (JString t) st = Inr (saveError ''string'' st)"
| "storeResponse (JArray vs) st = Inr (saveError ''array'' st)"

definition Unmarshal_triggerBuildResponse :: "string \<Rightarrow> string + triggerBuildResponse" where
  "Unmarshal_triggerBuildResponse bytes =
     (case parseJSON bytes of
        None \<Rightarrow> Inl ''json: syntax error''
      | Some v \<Rightarrow>
          (case storeResponse v (\<lparr>Request_ID = []\<rparr>, None) of
             Inl txt \<Rightarrow> Inl txt
           | Inr st \<Rightarrow> (case snd st of Some txt \<Rightarrow> Inl txt | None \<Rightarrow> Inr (fst st))))"

text \<open>
  The libraries of the concrete inputs, with encoding/json as above for the response of
  the trigger.
\<close>

definition lib_json :: lib where
  "lib_json = lib_sample\<lparr>Unmarshal_trigger := Unmarshal_triggerBuildResponse\<rparr>"

subsection \<open>Which bodies are taken, and the identifier they give\<close>

text \<open>
  In the words of a reader of the response: the values under a key that names the field
  (\<open>request\<close> at the top, \<open>id\<close> below it); a value is taken for \<open>id\<close> when it is null, a
  number, or a string that is a number, for \<open>request\<close> when it is null or an object all
  of whose \<open>id\<close> values are taken, and as the response when it is null or an object all
  of whose \<open>request\<close> values are taken. The identifier is the text of the last \<open>id\<close>
  that is not null, in the order of the body, and empty when there is none.
\<close>

definition valuesAt :: "string \<Rightarrow> json \<Rightarrow> json list" where
  "valuesAt name v =
     (case v of
        JObject ms \<Rightarrow> map snd (filter (\<lambda>m. foldName (fst m) = name) ms)
      | _ \<Rightarrow> [])"

definition isObjectOrNull :: "json \<Rightarrow> bool" where
  "isObjectOrNull v = (case v of JNull \<Rightarrow> True | JObject ms \<Rightarrow> True | _ \<Rightarrow> False)"

definition idTaken :: "json \<Rightarrow> bool" where
  "idTaken v =
     (case v of JNull \<Rightarrow> True | JNumber t \<Rightarrow> True | JString t \<Rightarrow> isValidNumber t | _ \<Rightarrow> False)"

definition requestTaken :: "json \<Rightarrow> bool" where
  "requestTaken v = (isObjectOrNull v \<and> list_all idTaken (valuesAt ''ID'' v))"

definition responseTaken :: "json \<Rightarrow> bool" where
  "responseTaken v = (isObjectOrNull v \<and> list_all requestTaken (valuesAt ''REQUEST'' v))"

definition idText :: "json \<Rightarrow> string list" where
  "idText v = (case v of JNumber t \<Rightarrow> [t] | JString t \<Rightarrow> [t] | _ \<Rightarrow> [])"

definition idTexts :: "json \<Rightarrow> string list" where
  "idTexts v = concat (map idText (concat (map (valuesAt ''ID'') (valuesAt ''REQUEST'' v))))"

definition extractedID :: "json \<Rightarrow> string" where
  "extractedID v = (if idTexts v = [] then [] else last (idTexts v))"

text \<open>The body \<open>{"request": {"id": n}}\<close>.\<close>

definition body_request :: "string \<Rightarrow> string" where
  "body_request n =
     [CHR ''{'', CHR 0x22] @ ''request'' @ [CHR 0x22] @ '': '' @ [CHR ''{'', CHR 0x22] @ ''id'' @
     [CHR 0x22] @ '': '' @ n @ ''}}''"

text \<open>Decoding has failed when it ended with an error or has saved one.\<close>

definition decodeFailed :: "string + decodeState \<Rightarrow> bool" where
  "decodeFailed r = (case r of Inl txt \<Rightarrow> True | Inr st \<Rightarrow> snd st \<noteq> None)"

definition storedID :: "string list \<Rightarrow> decodeState \<Rightarrow> string + decodeState" where
  "storedID ts st = Inr ((fst st)\<lparr>Request_ID := last (Request_ID (fst st) # ts)\<rparr>, snd st)"

section \<open>Properties\<close>

lemmas act_defs = andThen_def logMsg_def os_Exit_def

lemmas sample_defs = lib_sample_def job_sample_def env_sample_def answers_def NewJob_def
  Second_def body_request_42_def

lemmas http_defs = http_NewRequest_def client_Do_def ioutil_ReadAll_def
  json_Unmarshal_trigger_def json_Unmarshal_status_def

lemmas main_defs = main_def Env_def strconv_Atoi_def isDigit_def digitsValue_def Execute_def
  pollForResult_def tickerInterval_def triggerBuild_def poll_start_def Let_def

subsection \<open>Effects of sequenced calls and of schedules\<close>

lemma httpCalls_append: "httpCalls (xs @ ys) = httpCalls xs @ httpCalls ys"
  by (induction xs rule: httpCalls.induct) simp_all


lemma fst_andThen:
  "fst (andThen m f) = fst m @ (case snd m of Returns x \<Rightarrow> fst (f x) | _ \<Rightarrow> [])"
  by (cases m) (auto simp: andThen_def split: outcome.splits prod.splits)

lemma snd_andThen:
  "snd (andThen m f) = (case snd m of Returns x \<Rightarrow> snd (f x) | Exits n \<Rightarrow> Exits n
                         | Panics p \<Rightarrow> Panics p | Blocks \<Rightarrow> Blocks)"
  by (cases m) (auto simp: andThen_def split: outcome.splits prod.splits)

lemma fst_runEvents_Cons:
  "fst (runEvents L j requestID (e # es) s) =
     fst (step L j requestID e s) @ fst (runEvents L j requestID es (snd (step L j requestID e s)))"
  by (simp split: prod.splits)

lemma snd_runEvents_Cons:
  "snd (runEvents L j requestID (e # es) s) =
     snd (runEvents L j requestID es (snd (step L j requestID e s)))"
  by (simp split: prod.splits)

lemma untilReturn_runEvents:
  "\<exists>pre. evs = pre @ snd (snd (untilReturn L j requestID evs s))
         \<and> runEvents L j requestID pre s
             = (fst (untilReturn L j requestID evs s), fst (snd (untilReturn L j requestID evs s)))"
proof (induction evs arbitrary: s)
  case Nil
  show ?case by simp
next
  case (Cons e es)
  show ?case
  proof (cases "returned s = None")
    case False
    then show ?thesis by (intro exI [of _ "[]"]) simp
  next
    case True
    obtain pre where pre: "es = pre @ snd (snd (untilReturn L j requestID es (snd (step L j requestID e s))))"
      "runEvents L j requestID pre (snd (step L j requestID e s))
         = (fst (untilReturn L j requestID es (snd (step L j requestID e s))),
            fst (snd (untilReturn L j requestID es (snd (step L j requestID e s)))))"
      using Cons.IH by blast
    show ?thesis
      using True pre by (intro exI [of _ "e # pre"]) (auto split: prod.splits)
  qed
qed






lemma snd_loopBody:
  "snd (loopBody L j requestID sv sent) =
     (case snd (getBuildStatus L j requestID sv) of
        Returns (b, Some err) \<Rightarrow> Returns (sent, None)
      | Returns (b, None) \<Rightarrow> Returns (True, if doneBuild b then Some b else None)
      | Exits n \<Rightarrow> Exits n
      | Panics p \<Rightarrow> Panics p
      | Blocks \<Rightarrow> Blocks)"
  by (simp add: loopBody_def snd_andThen logMsg_def doneBuild_def split: outcome.splits prod.splits option.splits)

lemma step_WorkerFetches:
  "step L j requestID (WorkerFetches sv) s =
     (if worker s = InLoop
      then (fst (loopBody L j requestID sv (sentBuildID s)),
            case snd (loopBody L j requestID sv (sentBuildID s)) of
              Returns (sent, None) \<Rightarrow> s\<lparr>sentBuildID := sent, worker := AtRange\<rparr>
            | Returns (sent, Some b) \<Rightarrow> s\<lparr>sentBuildID := sent, worker := AtSend b\<rparr>
            | _ \<Rightarrow> s\<lparr>worker := Stuck\<rparr>)
      else ([], s))"
  by (cases "loopBody L j requestID sv (sentBuildID s)")
     (simp split: outcome.splits prod.splits option.splits)

subsection \<open>Execute and the errors of its steps\<close>

text \<open>
  C1: an error of \<open>triggerBuild\<close> or of \<open>pollForResult\<close> should be logged at fatal level
  and end the process with a failure code. \<open>Execute\<close> does neither. With the trigger
  request refused, \<open>triggerBuild\<close> returns the transport error, yet \<open>Execute\<close> returns
  with nothing logged, and \<open>main\<close> goes on to \<open>select {}\<close>; with the deadline of the poll
  passed, \<open>pollForResult\<close> returns the timeout error, and again \<open>Execute\<close> returns, the
  error is logged nowhere and no exit is called. The \<open>err\<close> that the last \<open>if\<close> of
  \<open>Execute\<close> tests is never assigned.
\<close>

theorem Execute_drops_errors:
  "snd (triggerBuild lib_sample job_sample (Refuses ''connection refused''))
     = Returns ([], Some (TransportError ''connection refused''))
   \<and> snd (Execute lib_sample job_sample (Refuses ''connection refused'') []) = Returns None
   \<and> logLines (fst (Execute lib_sample job_sample (Refuses ''connection refused'') [])) = []
   \<and> snd (main lib_sample env_sample (Refuses ''connection refused'') []) = Blocks
   \<and> logLines (fst (main lib_sample env_sample (Refuses ''connection refused'') []))
       = [(DebugLevel, ''Starting Travis job...'')]
   \<and> (case snd (pollForResult lib_sample job_sample ''42'' [SelectDeadline]) of
         Returns (r, s, rest) \<Rightarrow> r = (build_zero, Some (ErrorString ''timed out waiting for build result''))
       | _ \<Rightarrow> False)
   \<and> snd (main lib_sample env_sample (answers body_request_42) [SelectDeadline]) = Blocks
   \<and> logLines (fst (main lib_sample env_sample (answers body_request_42) [SelectDeadline]))
       = [(DebugLevel, ''Starting Travis job...'')]"
  by (simp add: main_defs act_defs http_defs sample_defs)

subsection \<open>The deadline of the poll\<close>









subsection \<open>Reporting the status\<close>

text \<open>
  C3: \<open>reportStatus\<close> ends the process with exit code 0 exactly when the state is in the
  Success set, whose only member is "passed", and with exit code 1 for every other
  state, in the Done set or not; the first goes through \<open>reportSuccess\<close>, the second
  through \<open>reportFailure\<close>.
\<close>

theorem reportStatus_exit_code:
  "reportStatus j buildID status =
     (if contains travisSuccessTermSet status
      then ([Log DebugLevel []
               (''JOB - TRAVIS: Reporting success for build '' @ [CHR 0x27] @ buildID @ [CHR 0x27] @ ''.'')],
            Exits 0)
      else ([Log DebugLevel []
               (''JOB - TRAVIS: Reporting failure for build '' @ [CHR 0x27] @ buildID @ [CHR 0x27] @ ''.'')],
            Exits 1))
   \<and> contains travisSuccessTermSet status = (status = ''passed'')
   \<and> contains travisDoneTermSet status =
       (status = ''passed'' \<or> status = ''failed'' \<or> status = ''errored'' \<or> status = ''canceled'')"
  by (simp add: reportStatus_def reportSuccess_def reportFailure_def act_defs contains_def
        travisSuccessTermSet_def travisDoneTermSet_def)

theorem reportStatus_exit_code_witness:
  "snd (reportStatus job_sample ''99'' ''passed'') = Exits 0
   \<and> snd (reportStatus job_sample ''99'' ''failed'') = Exits 1
   \<and> snd (reportStatus job_sample ''99'' ''errored'') = Exits 1
   \<and> snd (reportStatus job_sample ''99'' ''canceled'') = Exits 1
   \<and> snd (reportStatus job_sample ''99'' ''started'') = Exits 1"
  using reportStatus_exit_code [of job_sample "''99''" "''passed''"]
        reportStatus_exit_code [of job_sample "''99''" "''failed''"]
        reportStatus_exit_code [of job_sample "''99''" "''errored''"]
        reportStatus_exit_code [of job_sample "''99''" "''canceled''"]
        reportStatus_exit_code [of job_sample "''99''" "''started''"]
  by simp

subsection \<open>What the poll hands over\<close>

lemma handoffDone_step:
  assumes "handoffDone s"
  shows "handoffDone (snd (step L j requestID e s))"
proof (cases e)
  case (WorkerFetches sv)
  show ?thesis
    using assms unfolding WorkerFetches step_WorkerFetches snd_loopBody
    by (auto simp: handoffDone_def split: outcome.splits option.splits prod.splits worker.splits)
qed (use assms in \<open>auto simp: handoffDone_def build_zero_def split: worker.splits option.splits prod.splits\<close>)

lemma handoffDone_runEvents:
  "handoffDone s \<Longrightarrow> handoffDone (snd (runEvents L j requestID evs s))"
proof (induction evs arbitrary: s)
  case Nil
  then show ?case by simp
next
  case (Cons e es)
  then show ?case
    unfolding snd_runEvents_Cons using handoffDone_step by blast
qed

lemma handoffDone_start: "handoffDone poll_start"
  by (simp add: handoffDone_def poll_start_def)

lemma handoffDone_untilReturn:
  "handoffDone s \<Longrightarrow> handoffDone (fst (snd (untilReturn L j requestID evs s)))"
  using untilReturn_runEvents [of evs L j requestID s] handoffDone_runEvents [of s L j requestID]
  by (metis snd_conv)

text \<open>
  C4: when a tick's call of \<open>getBuildStatus\<close> returns a build whose state is not in the
  Done set, the tick puts nothing on the channel \<open>c\<close>: the goroutine is back at the
  \<open>range\<close>, the channel, the ticker and the caller are as before. In every schedule,
  every build on the channel, at the send, or returned by \<open>pollForResult\<close> without error
  has a state in the Done set.
\<close>

theorem poll_delivers_done_only:
  "(worker s = InLoop \<and> snd (getBuildStatus L j requestID sv) = Returns (b, None)
      \<and> \<not> contains travisDoneTermSet (State b) \<longrightarrow>
        snd (step L j requestID (WorkerFetches sv) s) = s\<lparr>sentBuildID := True, worker := AtRange\<rparr>)
   \<and> handoffDone (snd (runEvents L j requestID evs poll_start))
   \<and> (case snd (pollForResult L j requestID evs) of
         Returns ((b', None), s', rest) \<Rightarrow> contains travisDoneTermSet (State b')
       | _ \<Rightarrow> True)"
proof (intro conjI impI)
  assume "worker s = InLoop \<and> snd (getBuildStatus L j requestID sv) = Returns (b, None)
      \<and> \<not> contains travisDoneTermSet (State b)"
  then show "snd (step L j requestID (WorkerFetches sv) s) = s\<lparr>sentBuildID := True, worker := AtRange\<rparr>"
    unfolding step_WorkerFetches snd_loopBody by (simp add: doneBuild_def)
next
  show "handoffDone (snd (runEvents L j requestID evs poll_start))"
    by (rule handoffDone_runEvents [OF handoffDone_start])
next
  have "handoffDone (fst (snd (untilReturn L j requestID evs poll_start)))"
    by (rule handoffDone_untilReturn [OF handoffDone_start])
  then show "case snd (pollForResult L j requestID evs) of
         Returns ((b', None), s', rest) \<Rightarrow> contains travisDoneTermSet (State b')
       | _ \<Rightarrow> True"
    by (auto simp: pollForResult_def handoffDone_def doneBuild_def split: prod.splits option.splits outcome.splits)
qed

theorem poll_delivers_done_only_witness:
  "snd (step lib_sample job_sample ''42'' (WorkerFetches (answers (body_build_99 ''started'')))
          (poll_start\<lparr>worker := InLoop\<rparr>))
     = poll_start\<lparr>worker := InLoop, sentBuildID := True, worker := AtRange\<rparr>
   \<and> chan_c (snd (runEvents lib_sample job_sample ''42''
          [TimerFires, WorkerReceives, WorkerFetches (answers (body_build_99 ''passed'')), WorkerSends]
          poll_start)) = Some (build_99 ''passed'')
   \<and> handoffDone (snd (runEvents lib_sample job_sample ''42''
          [TimerFires, WorkerReceives, WorkerFetches (answers (body_build_99 ''passed'')), WorkerSends]
          poll_start))"
proof -
  have g: "snd (getBuildStatus lib_sample job_sample ''42'' (answers (body_build_99 ''started'')))
             = Returns (build_99 ''started'', None)"
    by (simp add: getBuildStatus_def act_defs http_defs sample_defs body_build_99_def body_builds_def)
  have n: "\<not> contains travisDoneTermSet (State (build_99 ''started''))"
    by (simp add: contains_def travisDoneTermSet_def build_99_def)
  have w: "worker (poll_start\<lparr>worker := InLoop\<rparr>) = InLoop"
    by simp
  have c: "chan_c (snd (runEvents lib_sample job_sample ''42''
          [TimerFires, WorkerReceives, WorkerFetches (answers (body_build_99 ''passed'')), WorkerSends]
          poll_start)) = Some (build_99 ''passed'')"
    by (simp add: poll_start_def loopBody_def getBuildStatus_def act_defs http_defs sample_defs
        body_build_99_def body_builds_def build_99_def contains_def travisDoneTermSet_def)
  show ?thesis
    using poll_delivers_done_only [of "poll_start\<lparr>worker := InLoop\<rparr>" lib_sample job_sample "''42''"
        "answers (body_build_99 ''started'')" "build_99 ''started''"
        "[TimerFires, WorkerReceives, WorkerFetches (answers (body_build_99 ''passed'')), WorkerSends]"]
      g n w c
    by simp
qed

subsection \<open>The status of a build\<close>

text \<open>
  C5: when the status request is answered and the body decodes, \<open>getBuildStatus\<close>
  returns the first build of the response as it is, with no error, and with no build in
  the response it returns the empty build and the error "no builds found".
\<close>

theorem getBuildStatus_first_build:
  assumes "NewRequest_error L ''GET'' (statusURL j requestID) = None"
    and "sv = Responds resp" and "Body resp = Inr bytes"
    and "Unmarshal_status L bytes = Inr res"
  shows "snd (getBuildStatus L j requestID sv) =
           Returns (case Builds res of
                      b # bs \<Rightarrow> (b, None)
                    | [] \<Rightarrow> (build_zero, Some (ErrorString ''no builds found'')))"
  using assms
  by (simp add: getBuildStatus_def act_defs http_NewRequest_def client_Do_def ioutil_ReadAll_def
        json_Unmarshal_status_def split: list.splits)

theorem getBuildStatus_first_build_witness:
  "snd (getBuildStatus lib_sample job_sample ''42'' (answers (body_build_99 ''passed'')))
     = Returns (build_99 ''passed'', None)
   \<and> snd (getBuildStatus lib_sample job_sample ''42'' (answers (body_builds [])))
     = Returns (build_zero, Some (ErrorString ''no builds found''))"
  using getBuildStatus_first_build [of lib_sample job_sample "''42''" "answers (body_build_99 ''passed'')"
          "\<lparr>Body = Inr (body_build_99 ''passed'')\<rparr>" "body_build_99 ''passed''" "\<lparr>Builds = [build_99 ''passed'']\<rparr>"]
        getBuildStatus_first_build [of lib_sample job_sample "''42''" "answers (body_builds [])"
          "\<lparr>Body = Inr (body_builds [])\<rparr>" "body_builds []" "\<lparr>Builds = []\<rparr>"]
  by (simp add: lib_sample_def answers_def body_build_99_def body_builds_def)

subsection \<open>The result of the trigger\<close>

text \<open>
  The result of \<open>triggerBuild\<close> with a client that has a time limit, whatever the
  libraries compute.
\<close>

lemma triggerBuild_cases:
  assumes "0 < Timeout (client j)"
  shows "snd (triggerBuild L j sv) =
           Returns
             (case NewRequest_error L ''POST'' (triggerURL j) of
                Some txt \<Rightarrow> ([], Some (TransportError txt))
              | None \<Rightarrow>
                  (case sv of
                     Refuses txt \<Rightarrow> ([], Some (TransportError txt))
                   | Silent \<Rightarrow>
                       ([], Some (TransportError ''net/http: request canceled (Client.Timeout exceeded while awaiting headers)''))
                   | Responds resp \<Rightarrow>
                       (case Body resp of
                          Inl txt \<Rightarrow> ([], Some (TransportError txt))
                        | Inr bytes \<Rightarrow>
                            (case Unmarshal_trigger L bytes of
                               Inl txt \<Rightarrow> ([], Some (DecodeError txt))
                             | Inr res \<Rightarrow> (Request_ID res, None)))))"
  using assms
  by (simp add: triggerBuild_def act_defs http_NewRequest_def client_Do_def ioutil_ReadAll_def
        json_Unmarshal_trigger_def split: option.splits server.splits sum.splits)

subsection \<open>The poll interval\<close>

text \<open>
  C7, as stated, fails: \<open>POLL_INTERVAL=0\<close> is not a positive integer, yet \<open>strconv.Atoi\<close>
  accepts it, \<open>main\<close> logs no fatal error, the trigger request goes out, and the process
  ends in the panic of \<open>time.NewTicker\<close>.
\<close>

theorem main_accepts_zero_interval:
  "strconv_Atoi ''0'' = (0, None)
   \<and> snd (main lib_sample (env_sample(''POLL_INTERVAL'' \<mapsto> ''0'')) (answers body_request_42) [])
       = Panics ''non-positive interval for NewTicker''
   \<and> logLines (fst (main lib_sample (env_sample(''POLL_INTERVAL'' \<mapsto> ''0'')) (answers body_request_42) []))
       = [(DebugLevel, ''Starting Travis job...'')]
   \<and> map (URL \<circ> snd)
        (httpCalls (fst (main lib_sample (env_sample(''POLL_INTERVAL'' \<mapsto> ''0'')) (answers body_request_42) [])))
       = [''https://api.travis-ci.org/repo/ragurney%2Ftravis-job/requests'']"
  by (simp add: main_defs act_defs http_defs sample_defs setHeaders_def Header_Set_def triggerURL_def)

text \<open>
  C7, amended: \<open>POLL_INTERVAL\<close> is optional and an unset variable is read as "30", which
  is the integer 30; the value must parse as an integer by \<open>strconv.Atoi\<close>. For every
  value that does not parse, the process ends with exit code 1 after a single fatal log
  line and without any HTTP call; when the five required variables are set, that line is
  "Failed to parse POLL_INTERVAL".
\<close>

theorem main_POLL_INTERVAL:
  "(env ''POLL_INTERVAL'' = None \<longrightarrow>
      main L env sv evs = main L (env(''POLL_INTERVAL'' \<mapsto> ''30'')) sv evs)
   \<and> strconv_Atoi ''30'' = (30, None)
   \<and> (\<forall>v. env ''POLL_INTERVAL'' = Some v \<and> snd (strconv_Atoi v) \<noteq> None \<longrightarrow>
         snd (main L env sv evs) = Exits 1
         \<and> httpCalls (fst (main L env sv evs)) = []
         \<and> (\<exists>kvs m. fst (main L env sv evs) = [Log FatalLevel kvs m])
         \<and> (env ''BRANCH'' \<noteq> None \<and> env ''REPO_OWNER'' \<noteq> None \<and> env ''REPO_NAME'' \<noteq> None
            \<and> env ''TRAVIS_TOKEN'' \<noteq> None \<and> env ''TRAVIS_TLD'' \<noteq> None \<longrightarrow>
              fst (main L env sv evs) = [Log FatalLevel [] ''Failed to parse POLL_INTERVAL'']))"
proof (intro conjI allI impI)
  assume "env ''POLL_INTERVAL'' = None"
  then show "main L env sv evs = main L (env(''POLL_INTERVAL'' \<mapsto> ''30'')) sv evs"
    by (simp add: main_def Env_def)
next
  show "strconv_Atoi ''30'' = (30, None)"
    by (simp add: strconv_Atoi_def isDigit_def digitsValue_def)
next
  fix v assume a: "env ''POLL_INTERVAL'' = Some v \<and> snd (strconv_Atoi v) \<noteq> None"
  then obtain n e where ne: "strconv_Atoi v = (n, Some e)"
    by (cases "strconv_Atoi v") auto
  show "snd (main L env sv evs) = Exits 1"
    using a ne by (simp add: main_def Env_def act_defs split: option.splits)
  show "httpCalls (fst (main L env sv evs)) = []"
    using a ne by (simp add: main_def Env_def act_defs split: option.splits)
  show "\<exists>kvs m. fst (main L env sv evs) = [Log FatalLevel kvs m]"
    using a ne by (simp add: main_def Env_def act_defs split: option.splits)
  assume "env ''BRANCH'' \<noteq> None \<and> env ''REPO_OWNER'' \<noteq> None \<and> env ''REPO_NAME'' \<noteq> None
            \<and> env ''TRAVIS_TOKEN'' \<noteq> None \<and> env ''TRAVIS_TLD'' \<noteq> None"
  then show "fst (main L env sv evs) = [Log FatalLevel [] ''Failed to parse POLL_INTERVAL'']"
    using a ne by (auto simp add: main_def Env_def act_defs)
qed

theorem main_POLL_INTERVAL_witness:
  "main lib_sample (env_sample(''POLL_INTERVAL'' \<mapsto> ''abc'')) (answers body_request_42) []
     = ([Log FatalLevel [] ''Failed to parse POLL_INTERVAL''], Exits 1)
   \<and> main lib_sample env_sample (answers body_request_42) []
     = main lib_sample (env_sample(''POLL_INTERVAL'' \<mapsto> ''30'')) (answers body_request_42) []"
proof -
  have syn: "snd (strconv_Atoi ''abc'') \<noteq> None"
    by (simp add: strconv_Atoi_def isDigit_def)
  have set: "(env_sample(''POLL_INTERVAL'' \<mapsto> ''abc'')) ''POLL_INTERVAL'' = Some ''abc''"
    by simp
  have unset: "env_sample ''POLL_INTERVAL'' = None"
    by (simp add: env_sample_def)
  note m = main_POLL_INTERVAL [of "env_sample(''POLL_INTERVAL'' \<mapsto> ''abc'')" lib_sample
      "answers body_request_42" "[]"]
  note d = main_POLL_INTERVAL [of env_sample lib_sample "answers body_request_42" "[]"]
  have "snd (main lib_sample (env_sample(''POLL_INTERVAL'' \<mapsto> ''abc'')) (answers body_request_42) []) = Exits 1"
    using m syn set by blast
  moreover have "fst (main lib_sample (env_sample(''POLL_INTERVAL'' \<mapsto> ''abc'')) (answers body_request_42) [])
      = [Log FatalLevel [] ''Failed to parse POLL_INTERVAL'']"
    using m syn set by (simp add: env_sample_def)
  moreover have "main lib_sample env_sample (answers body_request_42) []
     = main lib_sample (env_sample(''POLL_INTERVAL'' \<mapsto> ''30'')) (answers body_request_42) []"
    using d unset by blast
  ultimately show ?thesis by (simp add: prod_eq_iff)
qed

subsection \<open>The build-started notice\<close>








subsection \<open>The request body\<close>

lemma quoteBytes_printable_Cons:
  "printable c \<Longrightarrow> quoteBytes L [] (c # cs) = escapeASCII c @ quoteBytes L [] cs"
  by (simp add: printable_def)

lemma json_string_tail_escapeASCII:
  assumes "printable c"
  shows "json_string_tail (escapeASCII c @ rest) =
           map_option (\<lambda>vr. (c # fst vr, snd vr)) (json_string_tail rest)"
proof (cases "c = CHR 0x22 \<or> c = CHR 0x5C")
  case True
  then show ?thesis
    by (auto simp: escapeASCII_def json_escape_def)
next
  case False
  then have "escapeASCII c = [c]"
    using assms by (simp add: escapeASCII_def printable_def)
  moreover have "\<not> (of_char c :: nat) < 0x20"
    using assms by (simp add: printable_def)
  ultimately show ?thesis
    using False by simp
qed

lemma json_string_tail_quoteBytes:
  "list_all printable s \<Longrightarrow>
     json_string_tail (quoteBytes L [] s @ CHR 0x22 # r) = Some (s, r)"
proof (induction s)
  case Nil
  show ?case by simp
next
  case (Cons c cs)
  then have p: "printable c" and ps: "list_all printable cs"
    by simp_all
  have "json_string_tail (quoteBytes L [] (c # cs) @ CHR 0x22 # r)
          = json_string_tail (escapeASCII c @ (quoteBytes L [] cs @ CHR 0x22 # r))"
    by (simp only: quoteBytes_printable_Cons [OF p] append_assoc)
  also have "\<dots> = map_option (\<lambda>vr. (c # fst vr, snd vr))
                      (json_string_tail (quoteBytes L [] cs @ CHR 0x22 # r))"
    by (rule json_string_tail_escapeASCII [OF p])
  also have "\<dots> = Some (c # cs, r)"
    by (simp add: Cons.IH [OF ps])
  finally show ?case .
qed

text \<open>
  For a branch of printable ASCII characters, the quote and the backslash among them,
  the body reads back as JSON to the branch.
\<close>

lemma triggerData_roundtrip_printable:
  assumes "list_all printable (branch j)"
  shows "json_branch (triggerData L j) = Some (branch j)"
proof -
  have shape: "triggerData L j = bodyPrefix @ CHR 0x22 # (quoteBytes L [] (branch j) @ CHR 0x22 # ''}}'')"
    by (simp add: triggerData_def bodyPrefix_def strconv_Quote_def)
  show ?thesis
    unfolding json_branch_def shape
    by (simp add: json_string_tail_quoteBytes [OF assms])
qed

text \<open>
  C9: the body should be valid JSON whose branch field reads back to the branch, for
  every branch. \<open>%q\<close> escapes in Go syntax, which JSON shares for the quote and the
  backslash but not for control characters: for the branch that is the single byte 0x07
  the body is \<open>{"request": {"branch": "\a"}}\<close>, and for the byte 0x01 the escape is
  \<open>\x01\<close>; neither body is JSON.
\<close>

theorem triggerData_bell_not_JSON:
  "map (Payload \<circ> snd)
     (httpCalls (fst (triggerBuild lib_sample (job_sample\<lparr>branch := [CHR 0x07]\<rparr>)
                        (answers body_request_42))))
     = [Some (triggerData lib_sample (job_sample\<lparr>branch := [CHR 0x07]\<rparr>))]
   \<and> triggerData lib_sample (job_sample\<lparr>branch := [CHR 0x07]\<rparr>)
     = bodyPrefix @ [CHR 0x22, CHR 0x5C, CHR ''a'', CHR 0x22] @ ''}}''
   \<and> json_branch (triggerData lib_sample (job_sample\<lparr>branch := [CHR 0x07]\<rparr>)) = None
   \<and> json_branch (triggerData lib_sample (job_sample\<lparr>branch := [CHR 0x01]\<rparr>)) = None
   \<and> json_branch (triggerData lib_sample (job_sample\<lparr>branch := [CHR ''a'', CHR 0x22, CHR 0x5C]\<rparr>))
       = Some [CHR ''a'', CHR 0x22, CHR 0x5C]"
proof -
  have sent: "map (Payload \<circ> snd)
     (httpCalls (fst (triggerBuild lib_sample (job_sample\<lparr>branch := [CHR 0x07]\<rparr>)
                        (answers body_request_42))))
     = [Some (triggerData lib_sample (job_sample\<lparr>branch := [CHR 0x07]\<rparr>))]"
    by (simp add: triggerBuild_def Let_def act_defs http_defs setHeaders_def Header_Set_def
        lib_sample_def answers_def)
  show ?thesis
    unfolding sent
    by (simp add: triggerData_def bodyPrefix_def strconv_Quote_def escapeASCII_def lowerhex_def
        json_branch_def json_escape_def)
qed

subsection \<open>The client and its time limit\<close>

lemma onlyClient_Nil: "onlyClient cl []"
  by (simp add: onlyClient_def)

lemma onlyClient_append: "onlyClient cl (xs @ ys) = (onlyClient cl xs \<and> onlyClient cl ys)"
  by (simp add: onlyClient_def httpCalls_append)

lemma onlyClient_andThen:
  assumes "onlyClient cl (fst m)" and "\<And>x. onlyClient cl (fst (f x))"
  shows "onlyClient cl (fst (andThen m f))"
  using assms by (simp add: fst_andThen onlyClient_append onlyClient_Nil split: outcome.splits)

lemma onlyClient_logMsg: "onlyClient cl (fst (logMsg lvl kvs m))"
  by (simp add: logMsg_def onlyClient_def)

lemma onlyClient_client_Do: "onlyClient cl (fst (client_Do cl req sv))"
  by (simp add: client_Do_def onlyClient_def)

lemma onlyClient_triggerBuild: "onlyClient (client j) (fst (triggerBuild L j sv))"
  unfolding triggerBuild_def Let_def
  by (auto split: sum.splits intro!: onlyClient_andThen onlyClient_client_Do simp: onlyClient_Nil)

lemma onlyClient_getBuildStatus: "onlyClient (client j) (fst (getBuildStatus L j requestID sv))"
  unfolding getBuildStatus_def Let_def
  by (auto split: sum.splits intro!: onlyClient_andThen onlyClient_client_Do onlyClient_logMsg
      simp: onlyClient_Nil)

lemma onlyClient_loopBody: "onlyClient (client j) (fst (loopBody L j requestID sv sent))"
  unfolding loopBody_def
  by (auto split: sum.splits option.splits prod.splits intro!: onlyClient_andThen onlyClient_getBuildStatus onlyClient_logMsg
      simp: onlyClient_Nil)

lemma onlyClient_reportStatus: "onlyClient cl (fst (reportStatus j buildID status))"
  by (simp add: reportStatus_def reportSuccess_def reportFailure_def act_defs onlyClient_def)

lemma onlyClient_step: "onlyClient (client j) (fst (step L j requestID e s))"
proof (cases e)
  case (WorkerFetches sv)
  then show ?thesis
    using onlyClient_loopBody [of j L requestID sv "sentBuildID s"]
    by (auto simp: onlyClient_Nil split: prod.splits outcome.splits option.splits)
qed (auto simp: onlyClient_Nil onlyClient_logMsg split: worker.splits option.splits)

lemma onlyClient_runEvents: "onlyClient (client j) (fst (runEvents L j requestID evs s))"
proof (induction evs arbitrary: s)
  case Nil
  show ?case by (simp add: onlyClient_Nil)
next
  case (Cons e es)
  show ?case
    unfolding fst_runEvents_Cons onlyClient_append
    using onlyClient_step Cons.IH by blast
qed

lemma onlyClient_untilReturn: "onlyClient (client j) (fst (untilReturn L j requestID evs s))"
  using untilReturn_runEvents [of evs L j requestID s] onlyClient_runEvents [of j L requestID _ s]
  by (metis fst_conv)

lemma onlyClient_pollForResult: "onlyClient (client j) (fst (pollForResult L j requestID evs))"
  using onlyClient_untilReturn [of j L requestID evs poll_start]
  by (auto simp: pollForResult_def onlyClient_Nil split: prod.splits)

lemma onlyClient_Execute: "onlyClient (client j) (fst (Execute L j sv evs))"
  unfolding Execute_def Let_def
  by (auto simp: fst_andThen onlyClient_append onlyClient_Nil onlyClient_triggerBuild
      onlyClient_pollForResult onlyClient_reportStatus split: outcome.splits prod.splits option.splits)

lemma onlyClient_Env: "onlyClient cl (fst (Env env name dflt))"
  by (simp add: Env_def onlyClient_Nil act_defs onlyClient_def split: option.splits)

lemma onlyClient_main: "onlyClient \<lparr>Timeout = 5 * Second\<rparr> (fst (main L env sv evs))"
proof -
  have c: "client (NewJob b ow n t tld p) = \<lparr>Timeout = 5 * Second\<rparr>" for b ow n t tld p
    by (simp add: NewJob_def)
  show ?thesis
    unfolding main_def Let_def
    by (auto simp: fst_andThen onlyClient_append onlyClient_Nil onlyClient_Env onlyClient_logMsg
        onlyClient_Execute [where j = "NewJob b ow n t tld p" for b ow n t tld p, unfolded c]
        onlyClient_runEvents [where j = "NewJob b ow n t tld p" for b ow n t tld p, unfolded c]
        split: outcome.splits prod.splits option.splits)
qed

lemma getBuildStatus_returns:
  "0 < Timeout (client j) \<Longrightarrow> \<exists>r. snd (getBuildStatus L j requestID sv) = Returns r"
  by (auto simp: getBuildStatus_def act_defs http_defs Let_def split: option.splits sum.splits server.splits)

lemma triggerBuild_returns:
  "0 < Timeout (client j) \<Longrightarrow> \<exists>r. snd (triggerBuild L j sv) = Returns r"
  by (auto simp: triggerBuild_def act_defs http_defs Let_def split: option.splits sum.splits server.splits)

lemma step_not_stuck:
  assumes "0 < Timeout (client j)" and "worker s \<noteq> Stuck"
  shows "worker (snd (step L j requestID e s)) \<noteq> Stuck"
proof (cases e)
  case (WorkerFetches sv)
  obtain r where "snd (getBuildStatus L j requestID sv) = Returns r"
    using getBuildStatus_returns [OF assms(1)] by blast
  then show ?thesis
    using assms(2) WorkerFetches
    by (cases r) (simp add: step_WorkerFetches snd_loopBody del: step.simps split: option.splits)
qed (use assms(2) in \<open>auto split: worker.splits option.splits\<close>)

lemma runEvents_not_stuck:
  assumes "0 < Timeout (client j)"
  shows "worker s \<noteq> Stuck \<Longrightarrow> worker (snd (runEvents L j requestID evs s)) \<noteq> Stuck"
proof (induction evs arbitrary: s)
  case Nil
  then show ?case by simp
next
  case (Cons e es)
  then show ?case
    unfolding snd_runEvents_Cons using step_not_stuck [OF assms] by blast
qed

text \<open>
  C10: the client of a job made by \<open>NewJob\<close> has a \<open>Timeout\<close> of five seconds; every HTTP
  call of the process, the trigger request and each status request, goes through that
  client; with it \<open>triggerBuild\<close> and \<open>getBuildStatus\<close> return whatever the server does,
  a silent server included, and in no schedule does the polling goroutine end up inside
  a call that never returns.
\<close>

theorem http_calls_use_timeout_client:
  "client (NewJob b ow n t tld p) = \<lparr>Timeout = 5 * Second\<rparr>
   \<and> (0::int) < 5 * Second
   \<and> onlyClient \<lparr>Timeout = 5 * Second\<rparr> (fst (main L env sv evs))
   \<and> onlyClient \<lparr>Timeout = 5 * Second\<rparr> (fst (Execute L (NewJob b ow n t tld p) sv evs))
   \<and> (\<exists>r. snd (triggerBuild L (NewJob b ow n t tld p) sv) = Returns r)
   \<and> (\<exists>r. snd (getBuildStatus L (NewJob b ow n t tld p) requestID sv) = Returns r)
   \<and> worker (snd (runEvents L (NewJob b ow n t tld p) requestID evs poll_start)) \<noteq> Stuck"
proof -
  have c: "client (NewJob b ow n t tld p) = \<lparr>Timeout = 5 * Second\<rparr>"
    by (simp add: NewJob_def)
  have pos: "0 < Timeout (client (NewJob b ow n t tld p))"
    by (simp add: NewJob_def Second_def)
  have w: "worker poll_start \<noteq> Stuck"
    by (simp add: poll_start_def)
  show ?thesis
    using c pos onlyClient_main [of L env sv evs]
      onlyClient_Execute [of "NewJob b ow n t tld p" L sv evs]
      triggerBuild_returns [OF pos, of L sv]
      getBuildStatus_returns [OF pos, of L requestID sv]
      runEvents_not_stuck [OF pos w, of L requestID evs]
    by (simp add: Second_def)
qed

theorem http_calls_use_timeout_client_witness:
  "onlyClient \<lparr>Timeout = 5 * Second\<rparr>
     (fst (main lib_sample env_sample (answers body_request_42)
             [TimerFires, WorkerReceives, WorkerFetches Silent]))
   \<and> map fst (httpCalls (fst (main lib_sample env_sample (answers body_request_42)
             [TimerFires, WorkerReceives, WorkerFetches Silent])))
      = [\<lparr>Timeout = 5000000000\<rparr>, \<lparr>Timeout = 5000000000\<rparr>]
   \<and> worker (snd (runEvents lib_sample job_sample ''42''
             [TimerFires, WorkerReceives, WorkerFetches Silent] poll_start)) = AtRange"
proof -
  have "map fst (httpCalls (fst (main lib_sample env_sample (answers body_request_42)
             [TimerFires, WorkerReceives, WorkerFetches Silent])))
      = [\<lparr>Timeout = 5000000000\<rparr>, \<lparr>Timeout = 5000000000\<rparr>]"
    by (simp add: main_defs act_defs http_defs sample_defs loopBody_def getBuildStatus_def)
  moreover have "worker (snd (runEvents lib_sample job_sample ''42''
             [TimerFires, WorkerReceives, WorkerFetches Silent] poll_start)) = AtRange"
    by (simp add: main_defs act_defs http_defs sample_defs loopBody_def getBuildStatus_def)
  ultimately show ?thesis
    using http_calls_use_timeout_client [of "''main''" "''ragurney''" "''travis-job''" "''secret''"
        "''org''" 30 lib_sample env_sample "answers body_request_42"
        "[TimerFires, WorkerReceives, WorkerFetches Silent]" "''42''"]
    by simp
qed

subsection \<open>The decoder and the reading of the response\<close>

lemma storedID_Nil: "storedID [] st = Inr st"
  by (simp add: storedID_def)

lemma storedID_then:
  "storedID ts st = Inr st' \<Longrightarrow> storedID us st' = storedID (ts @ us) st"
  by (auto simp: storedID_def)

lemma decodeFailed_Inl: "decodeFailed (Inl txt)"
  by (simp add: decodeFailed_def)

lemma decodeFailed_Inr: "decodeFailed (Inr st) = (snd st \<noteq> None)"
  by (simp add: decodeFailed_def)

lemma snd_saveError: "snd (saveError kind st) \<noteq> None"
  by (simp add: saveError_def split: option.splits)

lemma saveError_saved: "snd st \<noteq> None \<Longrightarrow> saveError kind st = st"
  by (auto simp: saveError_def split: option.splits)

lemma storeID_taken: "idTaken x \<Longrightarrow> storeID x st = storedID (idText x) st"
  by (cases x) (simp_all add: idTaken_def idText_def storedID_def)

lemma storeID_failed: "\<not> idTaken x \<or> snd st \<noteq> None \<Longrightarrow> decodeFailed (storeID x st)"
  by (cases x) (auto simp: idTaken_def decodeFailed_Inl decodeFailed_Inr snd_saveError)

lemma storeRequestMembers_taken:
  "list_all idTaken (map snd (filter (\<lambda>m. foldName (fst m) = ''ID'') ms)) \<Longrightarrow>
     storeRequestMembers ms st =
       storedID (concat (map idText (map snd (filter (\<lambda>m. foldName (fst m) = ''ID'') ms)))) st"
proof (induction ms arbitrary: st)
  case Nil
  show ?case by (simp add: storedID_Nil)
next
  case (Cons m ms)
  show ?case
  proof (cases "foldName (fst m) = ''ID''")
    case False
    then show ?thesis using Cons by simp
  next
    case True
    then have t: "idTaken (snd m)"
      and ts: "list_all idTaken (map snd (filter (\<lambda>m. foldName (fst m) = ''ID'') ms))"
      using Cons.prems by simp_all
    obtain st' where st': "storedID (idText (snd m)) st = Inr st'"
      by (simp add: storedID_def)
    show ?thesis
      using True storeID_taken [OF t, of st] st' Cons.IH [OF ts, of st'] storedID_then [OF st']
      by simp
  qed
qed

lemma storeRequestMembers_failed:
  "\<not> list_all idTaken (map snd (filter (\<lambda>m. foldName (fst m) = ''ID'') ms)) \<or> snd st \<noteq> None \<Longrightarrow>
     decodeFailed (storeRequestMembers ms st)"
proof (induction ms arbitrary: st)
  case Nil
  then show ?case by (simp add: decodeFailed_def)
next
  case (Cons m ms)
  show ?case
  proof (cases "foldName (fst m) = ''ID''")
    case False
    then show ?thesis using Cons by simp
  next
    case True
    note key = True
    show ?thesis
    proof (cases "storeID (snd m) st")
      case (Inl msg)
      then show ?thesis using key by (simp add: decodeFailed_def)
    next
      case (Inr st')
      have "\<not> list_all idTaken (map snd (filter (\<lambda>m. foldName (fst m) = ''ID'') ms)) \<or> snd st' \<noteq> None"
      proof (cases "idTaken (snd m) \<and> snd st = None")
        case True
        then show ?thesis
          using Cons.prems key by simp
      next
        case False
        then have "decodeFailed (storeID (snd m) st)"
          using storeID_failed [of "snd m" st] by blast
        then show ?thesis using Inr by (simp add: decodeFailed_def)
      qed
      then show ?thesis
        using key Inr Cons.IH [of st'] by simp
    qed
  qed
qed

lemma storeRequest_taken:
  "requestTaken x \<Longrightarrow> storeRequest x st = storedID (concat (map idText (valuesAt ''ID'' x))) st"
  by (cases x) (simp_all add: requestTaken_def isObjectOrNull_def valuesAt_def
      storeRequestMembers_taken storedID_Nil)

lemma storeRequest_failed:
  "\<not> requestTaken x \<or> snd st \<noteq> None \<Longrightarrow> decodeFailed (storeRequest x st)"
proof (cases x)
  case (JObject ms)
  assume "\<not> requestTaken x \<or> snd st \<noteq> None"
  then show ?thesis
    using storeRequestMembers_failed [of ms st]
    by (auto simp: JObject requestTaken_def isObjectOrNull_def valuesAt_def)
qed (auto simp: requestTaken_def isObjectOrNull_def valuesAt_def decodeFailed_Inr snd_saveError)

lemma storeMembers_taken:
  "list_all requestTaken (map snd (filter (\<lambda>m. foldName (fst m) = ''REQUEST'') ms)) \<Longrightarrow>
     storeMembers ms st =
       storedID (concat (map idText (concat (map (valuesAt ''ID'')
                  (map snd (filter (\<lambda>m. foldName (fst m) = ''REQUEST'') ms)))))) st"
proof (induction ms arbitrary: st)
  case Nil
  show ?case by (simp add: storedID_Nil)
next
  case (Cons m ms)
  show ?case
  proof (cases "foldName (fst m) = ''REQUEST''")
    case False
    then show ?thesis using Cons by simp
  next
    case True
    then have t: "requestTaken (snd m)"
      and ts: "list_all requestTaken (map snd (filter (\<lambda>m. foldName (fst m) = ''REQUEST'') ms))"
      using Cons.prems by simp_all
    obtain st' where st': "storedID (concat (map idText (valuesAt ''ID'' (snd m)))) st = Inr st'"
      by (simp add: storedID_def)
    show ?thesis
      using True storeRequest_taken [OF t, of st] st' Cons.IH [OF ts, of st'] storedID_then [OF st']
      by simp
  qed
qed

lemma storeMembers_failed:
  "\<not> list_all requestTaken (map snd (filter (\<lambda>m. foldName (fst m) = ''REQUEST'') ms))
     \<or> snd st \<noteq> None \<Longrightarrow>
     decodeFailed (storeMembers ms st)"
proof (induction ms arbitrary: st)
  case Nil
  then show ?case by (simp add: decodeFailed_def)
next
  case (Cons m ms)
  show ?case
  proof (cases "foldName (fst m) = ''REQUEST''")
    case False
    then show ?thesis using Cons by simp
  next
    case True
    note key = True
    show ?thesis
    proof (cases "storeRequest (snd m) st")
      case (Inl msg)
      then show ?thesis using key by (simp add: decodeFailed_def)
    next
      case (Inr st')
      have "\<not> list_all requestTaken (map snd (filter (\<lambda>m. foldName (fst m) = ''REQUEST'') ms))
              \<or> snd st' \<noteq> None"
      proof (cases "requestTaken (snd m) \<and> snd st = None")
        case True
        then show ?thesis
          using Cons.prems key by simp
      next
        case False
        then have "decodeFailed (storeRequest (snd m) st)"
          using storeRequest_failed [of "snd m" st] by blast
        then show ?thesis using Inr by (simp add: decodeFailed_def)
      qed
      then show ?thesis
        using key Inr Cons.IH [of st'] by simp
    qed
  qed
qed

lemma storeResponse_taken:
  "responseTaken v \<Longrightarrow> storeResponse v st = storedID (idTexts v) st"
  by (cases v) (simp_all add: responseTaken_def isObjectOrNull_def valuesAt_def idTexts_def
      storeMembers_taken storedID_Nil)

lemma storeResponse_failed:
  "\<not> responseTaken v \<Longrightarrow> decodeFailed (storeResponse v st)"
proof (cases v)
  case (JObject ms)
  assume "\<not> responseTaken v"
  then show ?thesis
    using storeMembers_failed [of ms st]
    by (auto simp: JObject responseTaken_def isObjectOrNull_def valuesAt_def)
qed (auto simp: responseTaken_def isObjectOrNull_def valuesAt_def decodeFailed_Inr snd_saveError)

lemma Unmarshal_triggerBuildResponse_taken:
  "parseJSON bytes = Some v \<Longrightarrow> responseTaken v \<Longrightarrow>
     Unmarshal_triggerBuildResponse bytes = Inr \<lparr>Request_ID = extractedID v\<rparr>"
  by (simp add: Unmarshal_triggerBuildResponse_def storeResponse_taken storedID_def extractedID_def)

lemma Unmarshal_triggerBuildResponse_rejected:
  "parseJSON bytes = None \<or> (\<exists>v. parseJSON bytes = Some v \<and> \<not> responseTaken v) \<Longrightarrow>
     \<exists>txt. Unmarshal_triggerBuildResponse bytes = Inl txt"
proof (cases "parseJSON bytes")
  case None
  then show ?thesis by (simp add: Unmarshal_triggerBuildResponse_def)
next
  case (Some v)
  assume "parseJSON bytes = None \<or> (\<exists>v. parseJSON bytes = Some v \<and> \<not> responseTaken v)"
  then have "decodeFailed (storeResponse v (\<lparr>Request_ID = []\<rparr>, None))"
    using Some storeResponse_failed by auto
  then show ?thesis
    using Some
    by (auto simp: Unmarshal_triggerBuildResponse_def decodeFailed_def split: sum.splits option.splits)
qed

subsection \<open>Reading a body\<close>

lemma digits_append:
  assumes "\<not> isDigit c"
  shows "takeWhile isDigit (xs @ c # r) = takeWhile isDigit xs"
    and "dropWhile isDigit (xs @ c # r) = dropWhile isDigit xs @ c # r"
  using assms by (induction xs) simp_all

lemma scanDigits_append:
  "\<not> isDigit c \<Longrightarrow> scanDigits s = Some (t, s') \<Longrightarrow> scanDigits (s @ c # r) = Some (t, s' @ c # r)"
  by (auto simp: scanDigits_def digits_append split: if_splits)

lemma scanInt_append:
  "\<not> isDigit c \<Longrightarrow> scanInt s = Some (t, s') \<Longrightarrow> scanInt (s @ c # r) = Some (t, s' @ c # r)"
  by (cases s) (auto simp: scanInt_def digits_append split: if_splits)

lemma scanFrac_append:
  "\<not> isDigit c \<Longrightarrow> c \<noteq> CHR ''.'' \<Longrightarrow> scanFrac s = Some (t, s') \<Longrightarrow>
     scanFrac (s @ c # r) = Some (t, s' @ c # r)"
  by (cases s) (auto simp: scanFrac_def scanDigits_append split: if_splits option.splits)

lemma scanExp_append:
  "\<not> isDigit c \<Longrightarrow> c \<noteq> CHR ''e'' \<Longrightarrow> c \<noteq> CHR ''E'' \<Longrightarrow> scanExp s = Some (t, s') \<Longrightarrow>
     scanExp (s @ c # r) = Some (t, s' @ c # r)"
proof (cases s)
  case Nil
  assume "\<not> isDigit c" "c \<noteq> CHR ''e''" "c \<noteq> CHR ''E''" "scanExp s = Some (t, s')"
  then show ?thesis using Nil by (auto simp: scanExp_def)
next
  case (Cons x xs)
  assume a: "\<not> isDigit c" "c \<noteq> CHR ''e''" "c \<noteq> CHR ''E''" "scanExp s = Some (t, s')"
  show ?thesis
  proof (cases "x = CHR ''e'' \<or> x = CHR ''E''")
    case False
    then show ?thesis using a Cons by (auto simp: scanExp_def)
  next
    case True
    then obtain ds where ds: "scanDigits (snd (scanSign xs)) = Some (ds, s')"
      and t: "t = x # fst (scanSign xs) @ ds"
      using a(4) Cons by (auto simp: scanExp_def split: option.splits)
    have sg: "scanSign (xs @ c # r) = (fst (scanSign xs), snd (scanSign xs) @ c # r)"
    proof (cases xs)
      case Nil
      then show ?thesis using ds by (simp add: scanSign_def scanDigits_def)
    next
      case (Cons y ys)
      then show ?thesis by (simp add: scanSign_def)
    qed
    show ?thesis
      using True Cons t sg scanDigits_append [OF a(1) ds, of r] by (simp add: scanExp_def)
  qed
qed

lemma scanNumber_append:
  assumes "\<not> isDigit c" "c \<noteq> CHR ''.''" "c \<noteq> CHR ''e''" "c \<noteq> CHR ''E''"
    and "scanNumber s = Some (t, s')"
  shows "scanNumber (s @ c # r) = Some (t, s' @ c # r)"
proof -
  obtain ip s2 fp s3 ep where i: "scanInt (snd (scanMinus s)) = Some (ip, s2)"
    and f: "scanFrac s2 = Some (fp, s3)" and e: "scanExp s3 = Some (ep, s')"
    and t: "t = fst (scanMinus s) @ ip @ fp @ ep"
    using assms(5) by (auto simp: scanNumber_def split: option.splits)
  have m: "scanMinus (s @ c # r) = (fst (scanMinus s), snd (scanMinus s) @ c # r)"
  proof (cases s)
    case Nil
    then show ?thesis using i by (simp add: scanMinus_def scanInt_def)
  next
    case (Cons y ys)
    then show ?thesis by (simp add: scanMinus_def)
  qed
  show ?thesis
    using m t scanInt_append [OF assms(1) i, of r] scanFrac_append [OF assms(1,2) f, of r]
      scanExp_append [OF assms(1,3,4) e, of r]
    by (simp add: scanNumber_def)
qed

lemma isValidNumber_start:
  assumes "isValidNumber n"
  shows "\<exists>c cs. n = c # cs \<and> (c = CHR ''-'' \<or> isDigit c)"
proof (cases n)
  case Nil
  then show ?thesis
    using assms by (simp add: isValidNumber_def scanNumber_def scanMinus_def scanInt_def)
next
  case (Cons c cs)
  then show ?thesis
    using assms
    by (auto simp: isValidNumber_def scanNumber_def scanMinus_def scanInt_def isDigit_def
        split: option.splits if_splits)
qed

lemma parseJSON_body_request:
  assumes "isValidNumber n"
  shows "parseJSON (body_request n) = Some (JObject [(''request'', JObject [(''id'', JNumber n)])])"
proof -
  obtain c cs where n: "n = c # cs" and c: "c = CHR ''-'' \<or> isDigit c"
    using isValidNumber_start [OF assms] by blast
  have sp: "\<not> isSpace c" and q: "c \<noteq> CHR 0x22" "c \<noteq> CHR ''{''" "c \<noteq> CHR ''[''"
    using c by (auto simp: isSpace_def isDigit_def)
  have num: "scanNumber (c # cs @ ''}}'') = Some (c # cs, ''}}'')"
    using scanNumber_append [of "CHR ''}''" n n "[]" "''}''"] assms n
    by (simp add: isValidNumber_def isDigit_def)
  show ?thesis
    using sp q c num
    by (simp add: body_request_def n parseJSON_def skipSpace_def isSpace_def json_escape_def)
qed


lemma skipSpace_le: "length (skipSpace s) \<le> length s"
  by (simp add: skipSpace_def length_dropWhile_le)

lemma skipSpace_Cons: "skipSpace s = c # cs \<Longrightarrow> length cs < length s"
  using skipSpace_le [of s] by simp

lemma scanString_shorter: "scanString s = Some (t, r) \<Longrightarrow> length r < length s"
proof (induction "length s" arbitrary: s t r rule: less_induct)
  case less
  have IH: "length r' < length s'"
    if "scanString s' = Some (t', r')" and "length s' < length s" for s' t' r'
    using less.hyps [OF that(2) that(1)] .
  show ?case
  proof (cases s)
    case Nil
    then show ?thesis using less.prems by simp
  next
    case (Cons c cs)
    show ?thesis
      using less.prems unfolding Cons
      by (auto split: if_splits option.splits list.splits dest!: IH simp: Cons)
  qed
qed


lemma dropDigits_le: "length (dropWhile isDigit s) \<le> length s"
  by (rule length_dropWhile_le)

lemma scanDigits_le: "scanDigits s = Some (t, r) \<Longrightarrow> length r \<le> length s"
  by (auto simp: scanDigits_def dropDigits_le split: if_splits)

lemma scanInt_shorter: "scanInt s = Some (t, r) \<Longrightarrow> length r < length s"
  using dropDigits_le [of "tl s"]
  by (cases s) (auto simp: scanInt_def split: if_splits)

lemma scanFrac_le: "scanFrac s = Some (t, r) \<Longrightarrow> length r \<le> length s"
  by (cases s) (auto simp: scanFrac_def split: if_splits option.splits dest!: scanDigits_le)

lemma scanSign_le: "length (snd (scanSign s)) \<le> length s"
  by (cases s) (auto simp: scanSign_def)

lemma scanExp_le: "scanExp s = Some (t, r) \<Longrightarrow> length r \<le> length s"
proof (cases s)
  case Nil
  assume "scanExp s = Some (t, r)"
  then show ?thesis using Nil by (simp add: scanExp_def)
next
  case (Cons x xs)
  assume "scanExp s = Some (t, r)"
  then show ?thesis
    using Cons scanSign_le [of xs]
    by (auto simp: scanExp_def split: if_splits option.splits dest!: scanDigits_le)
qed

lemma scanMinus_le: "length (snd (scanMinus s)) \<le> length s"
  by (cases s) (auto simp: scanMinus_def)

lemma scanNumber_shorter: "scanNumber s = Some (t, r) \<Longrightarrow> length r < length s"
  using scanMinus_le [of s]
  by (auto simp: scanNumber_def split: option.splits
      dest!: scanInt_shorter scanFrac_le scanExp_le)

text \<open>
  What a parse leaves is shorter than what it was given, so the tests on the lengths in
  \<open>parseElements\<close> and \<open>parseMembers\<close> never fail.
\<close>

lemmas parse_simps = parseValue.simps parseElements.simps parseMembers.simps

lemma parse_shorter:
  "(\<forall>d v r. parseValue d s = Some (v, r) \<longrightarrow> length r < length s)
   \<and> (\<forall>d vs r. parseElements d s = Some (vs, r) \<longrightarrow> length r < length s)
   \<and> (\<forall>d ms r. parseMembers d s = Some (ms, r) \<longrightarrow> length r < length s)"
proof (induction "length s" arbitrary: s rule: less_induct)
  case less
  have IHe: "length r < length s'"
    if "parseElements d s' = Some (vs, r)" and "length s' < length s" for d s' vs r
    using less.hyps [OF that(2)] that(1) by blast
  have IHm: "length r < length s'"
    if "parseMembers d s' = Some (ms, r)" and "length s' < length s" for d s' ms r
    using less.hyps [OF that(2)] that(1) by blast
  have v: "length r < length s" if "parseValue d s = Some (v, r)" for d v r
  proof (cases "skipSpace s")
    case Nil
    then show ?thesis using that unfolding parseValue.simps [of d s] by simp
  next
    case (Cons c cs)
    have cs: "length cs < length s"
      by (rule skipSpace_Cons [OF Cons])
    show ?thesis
      using that cs unfolding parseValue.simps [of d s] Cons
      by (auto simp del: parse_simps split: if_splits option.splits list.splits
          dest!: IHe IHm scanString_shorter scanNumber_shorter skipSpace_Cons)
  qed
  have e: "length r < length s" if "parseElements d s = Some (vs, r)" for d vs r
    using that unfolding parseElements.simps [of d s]
    by (auto simp del: parse_simps split: if_splits option.splits list.splits
        dest!: IHe skipSpace_Cons)
  have m: "length r < length s" if "parseMembers d s = Some (ms, r)" for d ms r
    using that unfolding parseMembers.simps [of d s]
    by (auto simp del: parse_simps split: if_splits option.splits list.splits
        dest!: IHm scanString_shorter skipSpace_Cons)
  show ?case using v e m by blast
qed

subsection \<open>The result of the trigger, decoded\<close>

lemma foldName_request: "foldName ''request'' = ''REQUEST''"
  by code_simp

lemma foldName_id: "foldName ''id'' = ''ID''"
  by code_simp

lemma Unmarshal_body_request:
  assumes "isValidNumber n"
  shows "Unmarshal_triggerBuildResponse (body_request n) = Inr \<lparr>Request_ID = n\<rparr>"
proof -
  let ?v = "JObject [(''request'', JObject [(''id'', JNumber n)])]"
  have t: "responseTaken ?v"
    by (simp add: responseTaken_def requestTaken_def idTaken_def isObjectOrNull_def valuesAt_def
        foldName_request foldName_id del: foldName.simps)
  have i: "extractedID ?v = n"
    by (simp add: extractedID_def idTexts_def idText_def valuesAt_def foldName_request foldName_id
        del: foldName.simps)
  show ?thesis
    using Unmarshal_triggerBuildResponse_taken [OF parseJSON_body_request [OF assms] t] i by simp
qed

text \<open>
  C6, as stated, fails: the body \<open>{}\<close> is valid JSON without a \<open>request.id\<close>, and for it
  \<open>triggerBuild\<close> returns no decode error but the empty identifier and no error.
\<close>

theorem triggerBuild_empty_object:
  "parseJSON ''{}'' = Some (JObject [])
   \<and> idTexts (JObject []) = []
   \<and> Unmarshal_triggerBuildResponse ''{}'' = Inr \<lparr>Request_ID = []\<rparr>
   \<and> snd (triggerBuild lib_json job_sample (answers ''{}'')) = Returns ([], None)"
proof -
  have p: "parseJSON ''{}'' = Some (JObject [])"
    by (simp add: parseJSON_def skipSpace_def isSpace_def)
  have u: "Unmarshal_triggerBuildResponse ''{}'' = Inr \<lparr>Request_ID = []\<rparr>"
    by (simp add: Unmarshal_triggerBuildResponse_def p)
  have i: "idTexts (JObject []) = []"
    by (simp add: idTexts_def valuesAt_def)
  have "snd (triggerBuild lib_json job_sample (answers ''{}'')) = Returns ([], None)"
    by (simp add: triggerBuild_def Let_def act_defs http_defs lib_json_def lib_sample_def
        job_sample_def NewJob_def Second_def answers_def u)
  then show ?thesis using p u i by simp
qed

text \<open>
  C6, amended: \<open>triggerBuild\<close>, with a client that has a time limit and with
  encoding/json as its decoder, returns a transport error when the request cannot be
  made or sent, when the server stays silent, or when the body cannot be read. When the
  body was read, it returns a decode error exactly when \<open>json.Unmarshal\<close> rejects the
  body, which is when the body is not one JSON value or the value is not taken: the
  response or a \<open>request\<close> in it is neither an object nor null, or an \<open>id\<close> in a
  \<open>request\<close> is neither a number, a string that is a number, nor null. Otherwise it
  returns, with no error, the text of the last \<open>request.id\<close> of the body, which is empty
  when the body has none. For the body \<open>{"request": {"id": n}}\<close> with \<open>n\<close> a number that
  is \<open>n\<close>.
\<close>

theorem triggerBuild_decoded:
  assumes "0 < Timeout (client j)"
    and "Unmarshal_trigger L = Unmarshal_triggerBuildResponse"
  shows
    "(\<forall>msg. NewRequest_error L ''POST'' (triggerURL j) = Some msg \<longrightarrow>
        snd (triggerBuild L j sv) = Returns ([], Some (TransportError msg)))
     \<and> (NewRequest_error L ''POST'' (triggerURL j) = None \<longrightarrow>
        (\<forall>msg. sv = Refuses msg \<longrightarrow>
           snd (triggerBuild L j sv) = Returns ([], Some (TransportError msg)))
        \<and> (sv = Silent \<longrightarrow>
             (\<exists>msg. snd (triggerBuild L j sv) = Returns ([], Some (TransportError msg))))
        \<and> (\<forall>resp msg. sv = Responds resp \<and> Body resp = Inl msg \<longrightarrow>
             snd (triggerBuild L j sv) = Returns ([], Some (TransportError msg)))
        \<and> (\<forall>resp bytes. sv = Responds resp \<and> Body resp = Inr bytes \<longrightarrow>
             (case parseJSON bytes of
                None \<Rightarrow> \<exists>msg. snd (triggerBuild L j sv) = Returns ([], Some (DecodeError msg))
              | Some v \<Rightarrow>
                  if responseTaken v
                  then snd (triggerBuild L j sv) = Returns (extractedID v, None)
                  else \<exists>msg. snd (triggerBuild L j sv) = Returns ([], Some (DecodeError msg))))
        \<and> (\<forall>n. isValidNumber n \<longrightarrow>
             snd (triggerBuild L j (answers (body_request n))) = Returns (n, None)))"
proof (intro conjI allI impI)
  fix msg assume "NewRequest_error L ''POST'' (triggerURL j) = Some msg"
  then show "snd (triggerBuild L j sv) = Returns ([], Some (TransportError msg))"
    using triggerBuild_cases [OF assms(1), of L sv] by simp
next
  fix msg assume "NewRequest_error L ''POST'' (triggerURL j) = None" "sv = Refuses msg"
  then show "snd (triggerBuild L j sv) = Returns ([], Some (TransportError msg))"
    using triggerBuild_cases [OF assms(1), of L sv] by simp
next
  assume "NewRequest_error L ''POST'' (triggerURL j) = None" "sv = Silent"
  then show "\<exists>msg. snd (triggerBuild L j sv) = Returns ([], Some (TransportError msg))"
    using triggerBuild_cases [OF assms(1), of L sv] by simp
next
  fix resp msg
  assume "NewRequest_error L ''POST'' (triggerURL j) = None" "sv = Responds resp \<and> Body resp = Inl msg"
  then show "snd (triggerBuild L j sv) = Returns ([], Some (TransportError msg))"
    using triggerBuild_cases [OF assms(1), of L sv] by simp
next
  fix resp bytes
  assume nr: "NewRequest_error L ''POST'' (triggerURL j) = None"
    and sv: "sv = Responds resp \<and> Body resp = Inr bytes"
  have r: "snd (triggerBuild L j sv) =
      Returns (case Unmarshal_triggerBuildResponse bytes of
                 Inl msg \<Rightarrow> ([], Some (DecodeError msg))
               | Inr res \<Rightarrow> (Request_ID res, None))"
    using triggerBuild_cases [OF assms(1), of L sv] nr sv assms(2) by simp
  show "case parseJSON bytes of
          None \<Rightarrow> \<exists>msg. snd (triggerBuild L j sv) = Returns ([], Some (DecodeError msg))
        | Some v \<Rightarrow>
            if responseTaken v
            then snd (triggerBuild L j sv) = Returns (extractedID v, None)
            else \<exists>msg. snd (triggerBuild L j sv) = Returns ([], Some (DecodeError msg))"
  proof (cases "parseJSON bytes")
    case None
    then obtain msg where "Unmarshal_triggerBuildResponse bytes = Inl msg"
      using Unmarshal_triggerBuildResponse_rejected [of bytes] by blast
    then show ?thesis using None r by simp
  next
    case (Some v)
    show ?thesis
    proof (cases "responseTaken v")
      case True
      then show ?thesis
        using Some r Unmarshal_triggerBuildResponse_taken [OF Some True] by simp
    next
      case False
      then obtain msg where "Unmarshal_triggerBuildResponse bytes = Inl msg"
        using Some Unmarshal_triggerBuildResponse_rejected [of bytes] by blast
      then show ?thesis using Some False r by simp
    qed
  qed
next
  fix n assume nr: "NewRequest_error L ''POST'' (triggerURL j) = None" and n: "isValidNumber n"
  show "snd (triggerBuild L j (answers (body_request n))) = Returns (n, None)"
    using triggerBuild_cases [OF assms(1), of L "answers (body_request n)"] nr assms(2)
      Unmarshal_body_request [OF n]
    by (simp add: answers_def)
qed

theorem triggerBuild_decoded_witness:
  "snd (triggerBuild lib_json job_sample (answers (body_request ''42''))) = Returns (''42'', None)
   \<and> snd (triggerBuild lib_json job_sample (Refuses ''dial tcp: connection refused''))
       = Returns ([], Some (TransportError ''dial tcp: connection refused''))
   \<and> snd (triggerBuild lib_json job_sample (Responds \<lparr>Body = Inl ''unexpected EOF''\<rparr>))
       = Returns ([], Some (TransportError ''unexpected EOF''))
   \<and> snd (triggerBuild lib_json job_sample (answers ''[]''))
       = Returns ([], Some (DecodeError ''json: cannot unmarshal array into Go value''))
   \<and> snd (triggerBuild lib_json job_sample (answers ''<html>''))
       = Returns ([], Some (DecodeError ''json: syntax error''))"
proof -
  have t: "0 < Timeout (client job_sample)"
    by (simp add: job_sample_def NewJob_def Second_def)
  have u: "Unmarshal_trigger lib_json = Unmarshal_triggerBuildResponse"
    by (simp add: lib_json_def)
  have nr: "NewRequest_error lib_json ''POST'' (triggerURL job_sample) = None"
    by (simp add: lib_json_def lib_sample_def)
  have n: "isValidNumber ''42''"
    by (simp add: isValidNumber_def scanNumber_def scanMinus_def scanInt_def scanFrac_def
        scanExp_def isDigit_def)
  have a: "Unmarshal_triggerBuildResponse ''[]'' = Inl ''json: cannot unmarshal array into Go value''"
    by (simp add: Unmarshal_triggerBuildResponse_def parseJSON_def skipSpace_def isSpace_def
        saveError_def)
  have h: "Unmarshal_triggerBuildResponse ''<html>'' = Inl ''json: syntax error''"
    by (simp add: Unmarshal_triggerBuildResponse_def parseJSON_def skipSpace_def isSpace_def
        isDigit_def)
  have c: "snd (triggerBuild lib_json job_sample sv) =
      Returns (case Unmarshal_triggerBuildResponse bytes of
                 Inl msg \<Rightarrow> ([], Some (DecodeError msg))
               | Inr res \<Rightarrow> (Request_ID res, None))" if "sv = answers bytes" for sv bytes
    using triggerBuild_cases [OF t, of lib_json sv] nr u that by (simp add: answers_def)
  note w1 = triggerBuild_decoded [OF t u, of "answers (body_request ''42'')"]
  note w2 = triggerBuild_decoded [OF t u, of "Refuses ''dial tcp: connection refused''"]
  note w3 = triggerBuild_decoded [OF t u, of "Responds \<lparr>Body = Inl ''unexpected EOF''\<rparr>"]
  have "snd (triggerBuild lib_json job_sample (answers (body_request ''42''))) = Returns (''42'', None)"
    using w1 nr n by blast
  moreover have "snd (triggerBuild lib_json job_sample (Refuses ''dial tcp: connection refused''))
       = Returns ([], Some (TransportError ''dial tcp: connection refused''))"
    using w2 nr by blast
  moreover have "snd (triggerBuild lib_json job_sample (Responds \<lparr>Body = Inl ''unexpected EOF''\<rparr>))
       = Returns ([], Some (TransportError ''unexpected EOF''))"
    using w3 nr by simp
  ultimately show ?thesis
    using c [OF refl, of "''[]''"] c [OF refl, of "''<html>''"] a h by simp
qed

end
